theory Spec2Isabelle
  imports Main
begin

section \<open>Python strings\<close>

text \<open>
  A Python \<open>str\<close> is a sequence of Unicode code points; \<open>len\<close>, indexing, slicing and
  the quantifier bounds of \<open>re\<close> all count code points. A text is therefore a list of
  code points. The ASCII literals of the source are written with \<open>lit\<close>; the Arabic
  literals are written out as their code points.
\<close>

type_synonym pystr = "nat list"

definition lit :: "string \<Rightarrow> pystr" where
  "lit s = map of_char s"

text \<open>
  The character tables of the Python runtime (case mapping, decimal digits, alphanumerics,
  whitespace) are not part of the repository. The functions below take them as a
  parameter \<open>U\<close>.
  \<^item> \<open>u_lower\<close>, \<open>u_upper\<close> and \<open>u_title\<close> are \<open>str.lower\<close>, \<open>str.upper\<close> and
    \<open>str.title\<close>;
  \<^item> \<open>u_space\<close> is the whitespace test of \<open>str.strip\<close>, \<open>str.split\<close> and of \<open>\s\<close>;
  \<^item> \<open>u_decimal\<close> gives the value of a decimal digit: \<open>\d\<close> matches the code points
    that have one, and \<open>int\<close> reads them;
  \<^item> \<open>u_digit\<close> is \<open>str.isdigit\<close>;
  \<^item> \<open>u_alnum\<close> is \<open>str.isalnum\<close>; \<open>\w\<close> is an alphanumeric or the underscore;
  \<^item> \<open>u_ieq p c\<close> says that the pattern character \<open>p\<close> matches the text character
    \<open>c\<close> under the flag \<open>(?i)\<close>.
\<close>

record unicode =
  u_lower :: "pystr \<Rightarrow> pystr"
  u_upper :: "pystr \<Rightarrow> pystr"
  u_title :: "pystr \<Rightarrow> pystr"
  u_space :: "nat \<Rightarrow> bool"
  u_decimal :: "nat \<Rightarrow> nat option"
  u_digit :: "nat \<Rightarrow> bool"
  u_alnum :: "nat \<Rightarrow> bool"
  u_ieq :: "nat \<Rightarrow> nat \<Rightarrow> bool"

text \<open>The substring test \<open>needle in hay\<close>.\<close>

fun startswith :: "'a list \<Rightarrow> 'a list \<Rightarrow> bool" where
  "startswith s [] = True"
| "startswith [] (p # ps) = False"
| "startswith (c # cs) (p # ps) = (c = p \<and> startswith cs ps)"

fun py_in :: "'a list \<Rightarrow> 'a list \<Rightarrow> bool" where
  "py_in needle [] = (needle = [])"
| "py_in needle (c # cs) = (startswith (c # cs) needle \<or> py_in needle cs)"

text \<open>\<open>s.strip()\<close>, \<open>s.rstrip(chars)\<close> and \<open>s.replace(a, b)\<close> for single characters.\<close>

definition py_strip :: "unicode \<Rightarrow> pystr \<Rightarrow> pystr" where
  "py_strip U s = rev (dropWhile (u_space U) (rev (dropWhile (u_space U) s)))"

definition py_rstrip_chars :: "pystr \<Rightarrow> pystr \<Rightarrow> pystr" where
  "py_rstrip_chars chars s = rev (dropWhile (\<lambda>c. c \<in> set chars) (rev s))"

definition py_replace_char :: "nat \<Rightarrow> nat \<Rightarrow> pystr \<Rightarrow> pystr" where
  "py_replace_char a b s = map (\<lambda>c. if c = a then b else c) s"

text \<open>
  \<open>s.splitlines()\<close>: the line boundaries of Python are LF, CR, CR LF, VT, FF, FS, GS,
  RS, NEL, LS and PS; a final line boundary opens no further line.
\<close>

definition is_linebreak :: "nat \<Rightarrow> bool" where
  "is_linebreak c = (c \<in> set [10, 13, 11, 12, 28, 29, 30, 133, 8232, 8233])"

fun splitlines_from :: "pystr \<Rightarrow> pystr \<Rightarrow> pystr list" where
  "splitlines_from cur [] = (if cur = [] then [] else [cur])"
| "splitlines_from cur [c] = (if is_linebreak c then [cur] else [cur @ [c]])"
| "splitlines_from cur (c # d # cs) =
     (if c = 13 \<and> d = 10 then cur # splitlines_from [] cs
      else if is_linebreak c then cur # splitlines_from [] (d # cs)
      else splitlines_from (cur @ [c]) (d # cs))"

definition py_splitlines :: "pystr \<Rightarrow> pystr list" where
  "py_splitlines s = splitlines_from [] s"

text \<open>\<open>s.split()\<close> splits at runs of whitespace and returns no empty word.\<close>

fun split_ws_from :: "unicode \<Rightarrow> pystr \<Rightarrow> pystr \<Rightarrow> pystr list" where
  "split_ws_from U cur [] = (if cur = [] then [] else [cur])"
| "split_ws_from U cur (c # cs) =
     (if u_space U c
      then (if cur = [] then split_ws_from U [] cs else cur # split_ws_from U [] cs)
      else split_ws_from U (cur @ [c]) cs)"

definition py_split :: "unicode \<Rightarrow> pystr \<Rightarrow> pystr list" where
  "py_split U s = split_ws_from U [] s"

text \<open>\<open>s.split(sep)\<close> for a one-character separator: always at least one part.\<close>

fun split_char_from :: "nat \<Rightarrow> pystr \<Rightarrow> pystr \<Rightarrow> pystr list" where
  "split_char_from sep cur [] = [cur]"
| "split_char_from sep cur (c # cs) =
     (if c = sep then cur # split_char_from sep [] cs
      else split_char_from sep (cur @ [c]) cs)"

definition py_split_char :: "nat \<Rightarrow> pystr \<Rightarrow> pystr list" where
  "py_split_char sep s = split_char_from sep [] s"

text \<open>\<open>sep.join(parts)\<close>\<close>

fun py_join :: "pystr \<Rightarrow> pystr list \<Rightarrow> pystr" where
  "py_join sep [] = []"
| "py_join sep [x] = x"
| "py_join sep (x # y # ys) = x @ sep @ py_join sep (y # ys)"

text \<open>\<open>s[a:b]\<close> for \<open>0 \<le> a \<le> b\<close>.\<close>

definition slice :: "pystr \<Rightarrow> nat \<Rightarrow> nat \<Rightarrow> pystr" where
  "slice s a b = take (b - a) (drop a s)"

text \<open>\<open>s.isdigit()\<close>, and \<open>any(ch.isdigit() for ch in s)\<close>.\<close>

definition py_isdigit :: "unicode \<Rightarrow> pystr \<Rightarrow> bool" where
  "py_isdigit U s = (s \<noteq> [] \<and> list_all (u_digit U) s)"

definition any_digit :: "unicode \<Rightarrow> pystr \<Rightarrow> bool" where
  "any_digit U s = list_ex (u_digit U) s"

section \<open>Exceptions\<close>

text \<open>
  A computation that can raise returns \<open>Inl\<close> of the exception or \<open>Inr\<close> of its value.
\<close>

datatype py_error = AttributeError | IndexError | KeyError | ValueError

definition and_then :: "py_error + 'a \<Rightarrow> ('a \<Rightarrow> py_error + 'b) \<Rightarrow> py_error + 'b" where
  "and_then x f = (case x of Inl e \<Rightarrow> Inl e | Inr v \<Rightarrow> f v)"

text \<open>\<open>xs[i]\<close> for \<open>i \<ge> 0\<close>, and \<open>xs[-1]\<close>.\<close>

definition list_item :: "'a list \<Rightarrow> nat \<Rightarrow> py_error + 'a" where
  "list_item xs i = (if i < length xs then Inr (xs ! i) else Inl IndexError)"

definition list_last_item :: "'a list \<Rightarrow> py_error + 'a" where
  "list_last_item xs = (case rev xs of [] \<Rightarrow> Inl IndexError | x # _ \<Rightarrow> Inr x)"

text \<open>
  \<open>int(s)\<close> on a string without sign, blank or underscore (the source applies it to
  \<open>\d+\<close> matches and to strings that passed \<open>isdigit\<close>): the decimal value, or
  ValueError when a character has no decimal value or the string is empty.
\<close>

fun int_from :: "unicode \<Rightarrow> nat \<Rightarrow> pystr \<Rightarrow> py_error + nat" where
  "int_from U acc [] = Inr acc"
| "int_from U acc (c # cs) =
     (case u_decimal U c of
        None \<Rightarrow> Inl ValueError
      | Some d \<Rightarrow> int_from U (10 * acc + d) cs)"

definition py_int :: "unicode \<Rightarrow> pystr \<Rightarrow> py_error + nat" where
  "py_int U s = (if s = [] then Inl ValueError else int_from U 0 s)"

section \<open>Dictionaries\<close>

text \<open>
  A \<open>dict\<close> with string keys, in insertion order: \<open>d[k] = v\<close> overwrites in place or
  appends, \<open>{**a, **b}\<close> stores the items of \<open>b\<close> into a copy of \<open>a\<close>.
\<close>

type_synonym 'v dict = "(string \<times> 'v) list"

fun dict_set :: "'v dict \<Rightarrow> string \<Rightarrow> 'v \<Rightarrow> 'v dict" where
  "dict_set [] k v = [(k, v)]"
| "dict_set ((k', v') # d) k v =
     (if k' = k then (k, v) # d else (k', v') # dict_set d k v)"

definition dict_get :: "'v dict \<Rightarrow> string \<Rightarrow> 'v option" where
  "dict_get d k = map_of d k"

definition dict_has :: "'v dict \<Rightarrow> string \<Rightarrow> bool" where
  "dict_has d k = (map_of d k \<noteq> None)"

definition dict_item :: "'v dict \<Rightarrow> string \<Rightarrow> py_error + 'v" where
  "dict_item d k = (case map_of d k of None \<Rightarrow> Inl KeyError | Some v \<Rightarrow> Inr v)"

definition dict_merge :: "'v dict \<Rightarrow> 'v dict \<Rightarrow> 'v dict" where
  "dict_merge a b = foldl (\<lambda>d (k, v). dict_set d k v) a b"

section \<open>Regular expressions\<close>

text \<open>
  The fragment of \<open>re\<close> that the source uses. Every quantifier of the source stands on
  a character class, and every pattern has at most one capture group, so a match
  carries one optional span for \<open>group(1)\<close>.
  \<^item> \<open>Chr p\<close> a literal character, \<open>Cls c\<close> one character of a class;
  \<^item> \<open>Rep c lo hi greedy\<close> the class \<open>c\<close> repeated \<open>{lo,hi}\<close> (\<open>hi = None\<close>:
    unbounded), greedy or lazy;
  \<^item> \<open>Seq\<close> concatenation, \<open>Or\<close> alternation (left first), \<open>Grp\<close> the capture group;
  \<^item> \<open>WordB\<close> is \<open>\b\<close>, \<open>Eos\<close> is \<open>$\<close>, \<open>Look r\<close> is \<open>(?=r)\<close>;
  \<^item> \<open>Mark\<close> is internal: it closes the group opened at the position it carries.
\<close>

datatype citem = Ch nat | Dig | Spc | NotSpc | Wrd

datatype cclass = In "citem list" | NotIn "citem list"

datatype rx =
    Eps
  | Chr nat
  | Cls cclass
  | Rep cclass nat "nat option" bool
  | Seq rx rx
  | Or rx rx
  | Grp rx
  | Mark nat
  | WordB
  | Eos
  | Look rx

definition is_word :: "unicode \<Rightarrow> nat \<Rightarrow> bool" where
  "is_word U c = (u_alnum U c \<or> c = 95)"

definition chr_ok :: "unicode \<Rightarrow> bool \<Rightarrow> nat \<Rightarrow> nat \<Rightarrow> bool" where
  "chr_ok U ic p c = (if ic then u_ieq U p c else c = p)"

fun citem_ok :: "unicode \<Rightarrow> bool \<Rightarrow> citem \<Rightarrow> nat \<Rightarrow> bool" where
  "citem_ok U ic (Ch p) c = chr_ok U ic p c"
| "citem_ok U ic Dig c = (u_decimal U c \<noteq> None)"
| "citem_ok U ic Spc c = u_space U c"
| "citem_ok U ic NotSpc c = (\<not> u_space U c)"
| "citem_ok U ic Wrd c = is_word U c"

fun cclass_ok :: "unicode \<Rightarrow> bool \<Rightarrow> cclass \<Rightarrow> nat \<Rightarrow> bool" where
  "cclass_ok U ic (In items) c = list_ex (\<lambda>i. citem_ok U ic i c) items"
| "cclass_ok U ic (NotIn items) c = (\<not> list_ex (\<lambda>i. citem_ok U ic i c) items)"

text \<open>
  \<open>\b\<close>: exactly one of the characters before and after the position is a word
  character (the ends of the string count as non-word). \<open>$\<close> without MULTILINE: the
  end of the string, or just before a final newline.
\<close>

definition word_boundary :: "unicode \<Rightarrow> pystr \<Rightarrow> nat \<Rightarrow> bool" where
  "word_boundary U s pos =
     ((0 < pos \<and> pos \<le> length s \<and> is_word U (s ! (pos - 1)))
      \<noteq> (pos < length s \<and> is_word U (s ! pos)))"

definition at_end :: "pystr \<Rightarrow> nat \<Rightarrow> bool" where
  "at_end s pos = (pos = length s \<or> (Suc pos = length s \<and> s ! pos = 10))"

text \<open>
  The repetition counts a quantifier tries, in the order it tries them, when \<open>avail\<close>
  characters of the class follow: greedy from the longest, lazy from the shortest.
\<close>

definition rep_counts :: "nat \<Rightarrow> nat \<Rightarrow> nat option \<Rightarrow> bool \<Rightarrow> nat list" where
  "rep_counts avail lo hi greedy =
     (let m = (case hi of None \<Rightarrow> avail | Some h \<Rightarrow> min avail h)
      in if m < lo then []
         else if greedy then rev [lo ..< Suc m] else [lo ..< Suc m])"

fun first_some :: "'a option list \<Rightarrow> 'a option" where
  "first_some [] = None"
| "first_some (None # xs) = first_some xs"
| "first_some (Some x # xs) = Some x"

fun weight :: "rx \<Rightarrow> nat" where
  "weight (Seq a b) = Suc (weight a + weight b)"
| "weight (Or a b) = Suc (weight a + weight b)"
| "weight (Grp a) = Suc (Suc (weight a))"
| "weight (Look a) = Suc (weight a)"
| "weight r = 1"

text \<open>
  The backtracking matcher: \<open>rx_match U ic s k pos cap\<close> matches the pending nodes
  \<open>k\<close> one after the other from position \<open>pos\<close> of \<open>s\<close> (\<open>ic\<close>: the flag \<open>(?i)\<close>)
  and returns the end position and the group span of the first way to match that the
  engine of Python finds, \<open>None\<close> when there is none.
\<close>

function (sequential) rx_match ::
  "unicode \<Rightarrow> bool \<Rightarrow> pystr \<Rightarrow> rx list \<Rightarrow> nat \<Rightarrow> (nat \<times> nat) option
     \<Rightarrow> (nat \<times> (nat \<times> nat) option) option" where
  "rx_match U ic s [] pos cap = Some (pos, cap)"
| "rx_match U ic s (Eps # k) pos cap = rx_match U ic s k pos cap"
| "rx_match U ic s (Chr p # k) pos cap =
     (if pos < length s \<and> chr_ok U ic p (s ! pos)
      then rx_match U ic s k (Suc pos) cap else None)"
| "rx_match U ic s (Cls c # k) pos cap =
     (if pos < length s \<and> cclass_ok U ic c (s ! pos)
      then rx_match U ic s k (Suc pos) cap else None)"
| "rx_match U ic s (Rep c lo hi greedy # k) pos cap =
     first_some
       (map (\<lambda>n. rx_match U ic s k (pos + n) cap)
            (rep_counts (length (takeWhile (cclass_ok U ic c) (drop pos s))) lo hi greedy))"
| "rx_match U ic s (Seq a b # k) pos cap = rx_match U ic s (a # b # k) pos cap"
| "rx_match U ic s (Or a b # k) pos cap =
     (case rx_match U ic s (a # k) pos cap of
        Some r \<Rightarrow> Some r
      | None \<Rightarrow> rx_match U ic s (b # k) pos cap)"
| "rx_match U ic s (Grp a # k) pos cap = rx_match U ic s (a # Mark pos # k) pos cap"
| "rx_match U ic s (Mark st # k) pos cap = rx_match U ic s k pos (Some (st, pos))"
| "rx_match U ic s (WordB # k) pos cap =
     (if word_boundary U s pos then rx_match U ic s k pos cap else None)"
| "rx_match U ic s (Eos # k) pos cap =
     (if at_end s pos then rx_match U ic s k pos cap else None)"
| "rx_match U ic s (Look a # k) pos cap =
     (case rx_match U ic s [a] pos cap of
        None \<Rightarrow> None
      | Some r \<Rightarrow> rx_match U ic s k pos cap)"
  by pat_completeness auto
termination
  by (relation "measure (\<lambda>(U, ic, s, k, pos, cap). sum_list (map weight k))") auto

text \<open>
  A match object: where the match starts and ends, and the span of the group.
  \<open>re.search\<close> tries the start positions from the left.
\<close>

record rmatch =
  m_start :: nat
  m_end :: nat
  m_cap :: "(nat \<times> nat) option"

definition match_at :: "unicode \<Rightarrow> bool \<Rightarrow> rx \<Rightarrow> pystr \<Rightarrow> nat \<Rightarrow> rmatch option" where
  "match_at U ic r s start =
     (case rx_match U ic s [r] start None of
        None \<Rightarrow> None
      | Some (e, cap) \<Rightarrow> Some \<lparr> m_start = start, m_end = e, m_cap = cap \<rparr>)"

definition search_from :: "unicode \<Rightarrow> bool \<Rightarrow> rx \<Rightarrow> pystr \<Rightarrow> nat \<Rightarrow> rmatch option" where
  "search_from U ic r s pos = first_some (map (match_at U ic r s) [pos ..< Suc (length s)])"

definition re_search :: "unicode \<Rightarrow> bool \<Rightarrow> rx \<Rightarrow> pystr \<Rightarrow> rmatch option" where
  "re_search U ic r s = search_from U ic r s 0"

text \<open>\<open>m.group(0)\<close>, and \<open>m.group(1)\<close>, which is \<open>None\<close> when the group took no part.\<close>

definition group0 :: "pystr \<Rightarrow> rmatch \<Rightarrow> pystr" where
  "group0 s m = slice s (m_start m) (m_end m)"

definition group1 :: "pystr \<Rightarrow> rmatch \<Rightarrow> pystr option" where
  "group1 s m = (case m_cap m of None \<Rightarrow> None | Some (a, b) \<Rightarrow> Some (slice s a b))"

text \<open>
  \<open>re.finditer\<close>: the matches from left to right, none overlapping another. After a
  match the scan goes on at its end (one further after an empty match; no pattern of
  the source matches the empty string). The \<open>max\<close> only says that the scan moves on.
\<close>

function re_finditer :: "unicode \<Rightarrow> bool \<Rightarrow> rx \<Rightarrow> pystr \<Rightarrow> nat \<Rightarrow> rmatch list" where
  "re_finditer U ic r s pos =
     (if length s < pos then []
      else case search_from U ic r s pos of
             None \<Rightarrow> []
           | Some m \<Rightarrow>
               m # re_finditer U ic r s
                     (max (Suc pos) (if m_end m = m_start m then Suc (m_end m) else m_end m)))"
  by pat_completeness auto
termination
  by (relation "measure (\<lambda>(U, ic, r, s, pos). Suc (length s) - pos)") auto

declare re_finditer.simps [simp del]

text \<open>
  \<open>re.findall\<close> returns the text of the group when the pattern has one, of the whole
  match otherwise; a group that took no part gives the empty string.
\<close>

definition re_findall_group :: "unicode \<Rightarrow> bool \<Rightarrow> rx \<Rightarrow> pystr \<Rightarrow> pystr list" where
  "re_findall_group U ic r s =
     map (\<lambda>m. case group1 s m of None \<Rightarrow> [] | Some g \<Rightarrow> g) (re_finditer U ic r s 0)"

definition re_findall :: "unicode \<Rightarrow> bool \<Rightarrow> rx \<Rightarrow> pystr \<Rightarrow> pystr list" where
  "re_findall U ic r s = map (group0 s) (re_finditer U ic r s 0)"

text \<open>\<open>re.sub(pattern, '', s)\<close>: the text outside the matches.\<close>

fun cut_matches :: "pystr \<Rightarrow> nat \<Rightarrow> rmatch list \<Rightarrow> pystr" where
  "cut_matches s pos [] = drop pos s"
| "cut_matches s pos (m # ms) = slice s pos (m_start m) @ cut_matches s (m_end m) ms"

definition re_sub_empty :: "unicode \<Rightarrow> bool \<Rightarrow> rx \<Rightarrow> pystr \<Rightarrow> pystr" where
  "re_sub_empty U ic r s = cut_matches s 0 (re_finditer U ic r s 0)"

text \<open>Writing patterns: a literal string, a sequence, an alternation.\<close>

definition chars :: "pystr \<Rightarrow> rx" where
  "chars cs = foldr (\<lambda>c r. Seq (Chr c) r) cs Eps"

definition seq :: "rx list \<Rightarrow> rx" where
  "seq rs = foldr Seq rs Eps"

fun alt :: "rx list \<Rightarrow> rx" where
  "alt [] = Eps"
| "alt [r] = r"
| "alt (r # rs) = Or r (alt rs)"

section \<open>The tables on the Latin and Arabic blocks\<close>

text \<open>
  A concrete table for the two scripts the OCR calls ask for (\<open>eng\<close>, \<open>ara\<close>): Basic
  Latin letters have case, Arabic letters have none; the decimal digits are the ASCII
  and the two Arabic-Indic rows; the whitespace characters are those of Unicode. Every
  other code point is taken as an uncased symbol. The examples below run on it.
\<close>

definition la_upper_letter :: "nat \<Rightarrow> bool" where
  "la_upper_letter c = (65 \<le> c \<and> c \<le> 90)"

definition la_lower_letter :: "nat \<Rightarrow> bool" where
  "la_lower_letter c = (97 \<le> c \<and> c \<le> 122)"

definition la_lower_cp :: "nat \<Rightarrow> nat" where
  "la_lower_cp c = (if la_upper_letter c then c + 32 else c)"

definition la_upper_cp :: "nat \<Rightarrow> nat" where
  "la_upper_cp c = (if la_lower_letter c then c - 32 else c)"

fun la_title_from :: "bool \<Rightarrow> pystr \<Rightarrow> pystr" where
  "la_title_from prev [] = []"
| "la_title_from prev (c # cs) =
     (if la_upper_letter c \<or> la_lower_letter c
      then (if prev then la_lower_cp c else la_upper_cp c) # la_title_from True cs
      else c # la_title_from False cs)"

definition la_decimal :: "nat \<Rightarrow> nat option" where
  "la_decimal c =
     (if 48 \<le> c \<and> c \<le> 57 then Some (c - 48)
      else if 1632 \<le> c \<and> c \<le> 1641 then Some (c - 1632)
      else if 1776 \<le> c \<and> c \<le> 1785 then Some (c - 1776)
      else None)"

definition la_space :: "nat \<Rightarrow> bool" where
  "la_space c =
     (c \<in> set [9, 10, 11, 12, 13, 28, 29, 30, 31, 32, 133, 160, 5760, 8232, 8233, 8239,
                8287, 12288] \<or> (8192 \<le> c \<and> c \<le> 8202))"

definition la_alnum :: "nat \<Rightarrow> bool" where
  "la_alnum c =
     (la_upper_letter c \<or> la_lower_letter c \<or> la_decimal c \<noteq> None
      \<or> (1568 \<le> c \<and> c \<le> 1610))"

definition latin_arabic :: unicode where
  "latin_arabic =
     \<lparr> u_lower = map la_lower_cp,
       u_upper = map la_upper_cp,
       u_title = la_title_from False,
       u_space = la_space,
       u_decimal = la_decimal,
       u_digit = (\<lambda>c. la_decimal c \<noteq> None),
       u_alnum = la_alnum,
       u_ieq = (\<lambda>p c. la_lower_cp p = la_lower_cp c) \<rparr>"

section \<open>The document side classifier (ocr\_space.py)\<close>

datatype side = Front | Back | Unknown

definition back_indicators :: "pystr list" where
  "back_indicators =
     [ [0x627, 0x644, 0x643, 0x641, 0x627, 0x644, 0x629],
       lit ''employer'',
       [0x635, 0x627, 0x62D, 0x628, 0x20, 0x627, 0x644, 0x639, 0x645, 0x644],
       lit ''occupation'',
       [0x627, 0x644, 0x645, 0x647, 0x646, 0x629],
       lit ''occupation'',
       lit ''employer'',
       lit ''issuing place'',
       [0x645, 0x643, 0x627, 0x646, 0x20, 0x627, 0x644, 0x625, 0x635, 0x62F, 0x627, 0x631],
       lit ''family sponsor'',
       [0x643, 0x641, 0x627, 0x644, 0x629, 0x20, 0x639, 0x627, 0x626, 0x644, 0x64A, 0x629] ]"

definition front_indicators :: "pystr list" where
  "front_indicators =
     [ lit ''emirates id'',
       lit ''identity card'',
       [0x628, 0x637, 0x627, 0x642, 0x629, 0x20, 0x627, 0x644, 0x647, 0x648, 0x64A, 0x629],
       lit ''name'',
       [0x627, 0x644, 0x627, 0x633, 0x645],
       lit ''nationality'',
       [0x627, 0x644, 0x62C, 0x646, 0x633, 0x64A, 0x629],
       lit ''date of birth'',
       [0x62A, 0x627, 0x631, 0x64A, 0x62E, 0x20, 0x627, 0x644, 0x645, 0x64A, 0x644, 0x627,
        0x62F] ]"

text \<open>\<open>sum(1 for indicator in indicators if indicator in text_lower)\<close>\<close>

definition indicator_score :: "pystr list \<Rightarrow> pystr \<Rightarrow> nat" where
  "indicator_score indicators text_lower =
     sum_list [1. indicator \<leftarrow> indicators, py_in indicator text_lower]"

definition detect_document_side :: "unicode \<Rightarrow> pystr \<Rightarrow> side" where
  "detect_document_side U text =
     (let text_lower = u_lower U text;
          back_score = indicator_score back_indicators text_lower;
          front_score = indicator_score front_indicators text_lower
      in if back_score > front_score then Back
         else if front_score > back_score then Front
         else Unknown)"


section \<open>The front side extractor: parse\_fields (views.py)\<close>

definition stopwords :: "pystr list" where
  "stopwords =
     map lit [''resident'', ''identity'', ''card'', ''id number'', ''id no'', ''number'',
              ''nationality'', ''date of birth'', ''date'', ''expiry'', ''issuing'',
              ''signature'', ''sex'', ''passport'', ''signature/'', ''issue'']"

text \<open>The shared pieces of the patterns: \<open>\d\<close>, \<open>\s*\<close>, \<open>[:\-]?\<close>.\<close>

definition digits :: "nat \<Rightarrow> nat \<Rightarrow> rx" where
  "digits lo hi = Rep (In [Dig]) lo (Some hi) True"

definition spaces :: rx where
  "spaces = Rep (In [Spc]) 0 None True"

definition opt_sep :: rx where
  "opt_sep = Rep (In [Ch 58, Ch 45]) 0 (Some 1) True"

text \<open>\<open>\b\d{3}-\d{4}-\d{7}-\d\b\<close>\<close>

definition id_re :: rx where
  "id_re = seq [WordB, digits 3 3, Chr 45, digits 4 4, Chr 45, digits 7 7, Chr 45,
                Cls (In [Dig]), WordB]"

text \<open>
  The labelled fields: \<open>(?i)(?:label|...)\s*[:\-]?\s*([^\n\r]{lo,hi})\<close>, here for the
  labels of the name (Name, NAME and two Arabic words), the nationality and the
  address.
\<close>

definition labelled_re :: "pystr list \<Rightarrow> nat \<Rightarrow> nat \<Rightarrow> rx" where
  "labelled_re labels lo hi =
     seq [alt (map chars labels), spaces, opt_sep, spaces,
          Grp (Rep (NotIn [Ch 10, Ch 13]) lo (Some hi) True)]"

definition name_re :: rx where
  "name_re =
     labelled_re [lit ''Name'', lit ''NAME'', [0x627, 0x644, 0x627, 0x633, 0x645],
                  [0x627, 0x633, 0x645]] 2 80"

definition nationality_re :: rx where
  "nationality_re =
     labelled_re [lit ''Nationality'', [0x627, 0x644, 0x62C, 0x646, 0x633, 0x64A, 0x629]] 2 80"

definition address_re :: rx where
  "address_re =
     labelled_re [lit ''Address'', [0x627, 0x644, 0x639, 0x646, 0x648, 0x627, 0x646]] 2 140"

text \<open>\<open>[\:\-\/\|]+$\<close>\<close>

definition trailing_punct_re :: rx where
  "trailing_punct_re = seq [Rep (In [Ch 58, Ch 45, Ch 47, Ch 124]) 1 None True, Eos]"

text \<open>
  \<open>date_pattern\<close> is \<open>(\d{1,2}[\/\-]\d{1,2}[\/\-]\d{4})\<close>; a labelled date is
  \<open>(?i)\<close> + label + \<open>\s*[:\-]?\s*\<close> + \<open>date_pattern\<close>.
\<close>

definition date_pattern :: rx where
  "date_pattern =
     Grp (seq [digits 1 2, Cls (In [Ch 47, Ch 45]), digits 1 2, Cls (In [Ch 47, Ch 45]),
               digits 4 4])"

definition labelled_date_re :: "pystr \<Rightarrow> rx" where
  "labelled_date_re lbl = seq [chars lbl, spaces, opt_sep, spaces, date_pattern]"

definition dob_labels :: "pystr list" where
  "dob_labels =
     [lit ''Date of Birth'', lit ''DOB'', lit ''Birth'',
      [0x62A, 0x627, 0x631, 0x64A, 0x62E, 0x20, 0x627, 0x644, 0x645, 0x64A, 0x644, 0x627,
       0x62F]]"

definition issuing_labels :: "pystr list" where
  "issuing_labels =
     [lit ''Issuing Date'', lit ''Issue Date'', lit ''Issuing'', lit ''Date of Issue'',
      [0x62A, 0x627, 0x631, 0x64A, 0x62E, 0x20, 0x627, 0x644, 0x625, 0x635, 0x62F, 0x627,
       0x631]]"

definition expiry_labels :: "pystr list" where
  "expiry_labels =
     [lit ''Expiry Date'', lit ''Expiry'',
      [0x62A, 0x627, 0x631, 0x64A, 0x62E, 0x20, 0x627, 0x644, 0x627, 0x646, 0x62A, 0x647,
       0x627, 0x621]]"

text \<open>The three gender patterns, all under \<open>(?i)\<close>.\<close>

definition gender_labels :: rx where
  "gender_labels =
     alt (map chars [lit ''Sex'', lit ''Gender'', [0x627, 0x644, 0x62C, 0x646, 0x633]])"

definition gender_patterns :: "rx list" where
  "gender_patterns =
     [ seq [gender_labels, spaces, opt_sep, spaces,
            Grp (alt (map chars [lit ''Male'', lit ''Female'', lit ''M'', lit ''F'',
                                 [0x630, 0x643, 0x631], [0x623, 0x646, 0x62B, 0x649]]))],
       seq [gender_labels, spaces, opt_sep, spaces, Grp (Rep (NotIn [Ch 10]) 1 (Some 20) True)],
       Grp (alt (map chars [lit ''SCANNE'', lit ''SCANNED'', lit ''SCAN'', lit ''SCANNING''])) ]"

text \<open>
  \<open>m.group(1).strip()\<close>: the attribute access raises when the group is \<open>None\<close>.
\<close>

definition group1_strip :: "unicode \<Rightarrow> pystr \<Rightarrow> rmatch \<Rightarrow> py_error + pystr" where
  "group1_strip U s m =
     (case group1 s m of None \<Rightarrow> Inl AttributeError | Some g \<Rightarrow> Inr (py_strip U g))"

text \<open>\<open>[l.strip() for l in normalized.splitlines() if l.strip()]\<close>\<close>

definition stripped_lines :: "unicode \<Rightarrow> pystr \<Rightarrow> pystr list" where
  "stripped_lines U normalized =
     [py_strip U l. l \<leftarrow> py_splitlines normalized, py_strip U l \<noteq> []]"

text \<open>\<open>any(sw in low for sw in stopwords)\<close>\<close>

definition has_stopword :: "pystr \<Rightarrow> bool" where
  "has_stopword low = list_ex (\<lambda>sw. py_in sw low) stopwords"

text \<open>
  The fallback scan for the name, over \<open>enumerate(lines)\<close>: the result is the
  \<open>candidate\<close> at the \<open>break\<close>, or \<open>None\<close> when the loop runs out.
\<close>

fun name_scan :: "unicode \<Rightarrow> pystr list \<Rightarrow> (nat \<times> pystr) list \<Rightarrow> py_error + pystr option" where
  "name_scan U lines [] = Inr None"
| "name_scan U lines ((idx, line) # rest) =
     (let low = u_lower U line in
      if has_stopword low then name_scan U lines rest
      else if any_digit U line then name_scan U lines rest
      else if length (py_split U line) \<ge> 2 \<and> length line > 3 then
        (if py_in (lit ''united arab emirates'') low \<or> py_in (lit ''arab emirates'') low
         then name_scan U lines rest
         else if idx + 1 < length lines then
           and_then (list_item lines (idx + 1)) (\<lambda>nxt.
             if \<not> has_stopword (u_lower U nxt) \<and> \<not> any_digit U nxt
                \<and> length (py_split U nxt) \<le> 3
             then Inr (Some (line @ lit '' '' @ nxt))
             else Inr (Some line))
         else Inr (Some line))
      else name_scan U lines rest)"

text \<open>\<open>find_date_by_labels\<close>: the group of the first label that matches.\<close>

fun find_date_by_labels :: "unicode \<Rightarrow> pystr \<Rightarrow> pystr list \<Rightarrow> pystr option" where
  "find_date_by_labels U raw [] = None"
| "find_date_by_labels U raw (lbl # labels) =
     (case re_search U True (labelled_date_re lbl) raw of
        Some m \<Rightarrow> group1 raw m
      | None \<Rightarrow> find_date_by_labels U raw labels)"

definition month_names :: "pystr list" where
  "month_names =
     map lit [''Jan'', ''Feb'', ''Mar'', ''Apr'', ''May'', ''Jun'',
              ''Jul'', ''Aug'', ''Sep'', ''Oct'', ''Nov'', ''Dec'']"

text \<open>\<open>day, month, year = parts\<close> raises unless there are exactly three parts.\<close>

fun unpack3 :: "'a list \<Rightarrow> py_error + ('a \<times> 'a \<times> 'a)" where
  "unpack3 [a, b, c] = Inr (a, b, c)"
| "unpack3 xs = Inl ValueError"

text \<open>
  \<open>format_date\<close>. Inside the \<open>try\<close>: the split at the separator (\<open>Inr None\<close> stands
  for the early \<open>return date_str\<close>), then the month
  \<open>if month.isdigit() and 1 <= int(month) <= 12: month = month_names[int(month) - 1]\<close>.
  The bare \<open>except\<close> turns every exception into \<open>date_str\<close>.
\<close>

definition split_date :: "pystr \<Rightarrow> py_error + (pystr \<times> pystr \<times> pystr) option" where
  "split_date date_str =
     (if py_in [47] date_str
      then and_then (unpack3 (py_split_char 47 date_str)) (\<lambda>parts. Inr (Some parts))
      else if py_in [45] date_str
      then and_then (unpack3 (py_split_char 45 date_str)) (\<lambda>parts. Inr (Some parts))
      else Inr None)"

definition month_name :: "unicode \<Rightarrow> pystr \<Rightarrow> py_error + pystr" where
  "month_name U month =
     (if py_isdigit U month then
        and_then (py_int U month) (\<lambda>n.
          if 1 \<le> n \<and> n \<le> 12 then list_item month_names (n - 1) else Inr month)
      else Inr month)"

definition format_date_body :: "unicode \<Rightarrow> pystr \<Rightarrow> py_error + pystr" where
  "format_date_body U date_str =
     and_then (split_date date_str) (\<lambda>parts.
       case parts of
         None \<Rightarrow> Inr date_str
       | Some (day, month, year) \<Rightarrow>
           and_then (month_name U month) (\<lambda>month'.
             Inr (day @ [47] @ month' @ [47] @ year)))"

definition format_date :: "unicode \<Rightarrow> pystr \<Rightarrow> pystr" where
  "format_date U date_str =
     (case format_date_body U date_str of Inl e \<Rightarrow> date_str | Inr r \<Rightarrow> r)"

text \<open>
  The gender loop: \<open>gender_val\<close> at the \<open>break\<close>, \<open>None\<close> when no pattern gives a
  value. A group that is \<open>None\<close> gives the empty \<open>val\<close>.
\<close>

definition scan_words :: "pystr list" where
  "scan_words = map lit [''SCAN'', ''SCANNED'', ''SCANNING'']"

fun gender_scan :: "unicode \<Rightarrow> pystr \<Rightarrow> rx list \<Rightarrow> pystr option" where
  "gender_scan U raw [] = None"
| "gender_scan U raw (pattern # patterns) =
     (case re_search U True pattern raw of
        None \<Rightarrow> gender_scan U raw patterns
      | Some m \<Rightarrow>
          (let val = (case group1 raw m of
                        None \<Rightarrow> []
                      | Some g \<Rightarrow> if g \<noteq> [] then py_strip U g else [])
           in if val \<noteq> [] \<and> \<not> list_ex (\<lambda>word. py_in word (u_upper U val)) scan_words
              then Some val
              else gender_scan U raw patterns))"

definition set_gender :: "unicode \<Rightarrow> pystr option \<Rightarrow> pystr dict \<Rightarrow> pystr dict" where
  "set_gender U gender_val data =
     (case gender_val of
        None \<Rightarrow> data
      | Some g \<Rightarrow>
          if g = [] then data
          else (let val = u_upper U g in
                if val \<in> set [lit ''M'', lit ''MALE'', [0x630, 0x643, 0x631]]
                then dict_set (dict_set data ''gender'' (lit ''Male'')) ''sex'' (lit ''Male'')
                else if val \<in> set [lit ''F'', lit ''FEMALE'', [0x623, 0x646, 0x62B, 0x649]]
                then dict_set (dict_set data ''gender'' (lit ''Female'')) ''sex'' (lit ''Female'')
                else dict_set (dict_set data ''gender'' g) ''sex'' g))"

text \<open>
  The first address fallback: the line after a line that shows the nationality. The
  loop goes on when that line does not qualify; the result is the address at the
  \<open>break\<close>.
\<close>

fun address_after_nationality ::
  "unicode \<Rightarrow> pystr dict \<Rightarrow> pystr list \<Rightarrow> (nat \<times> pystr) list \<Rightarrow> py_error + pystr option" where
  "address_after_nationality U data lines [] = Inr None"
| "address_after_nationality U data lines ((idx, line) # rest) =
     and_then (dict_item data ''nationality'') (\<lambda>nat.
       if py_in (u_lower U nat) (u_lower U line) then
         (if idx + 1 < length lines then
            and_then (list_item lines (idx + 1)) (\<lambda>cand.
              if length cand > 4 \<and> \<not> any_digit U cand then Inr (Some cand)
              else address_after_nationality U data lines rest)
          else address_after_nationality U data lines rest)
       else address_after_nationality U data lines rest)"

text \<open>The second address fallback, over \<open>reversed(lines)\<close>.\<close>

fun address_scan :: "unicode \<Rightarrow> pystr list \<Rightarrow> pystr option" where
  "address_scan U [] = None"
| "address_scan U (l # ls) =
     (let low = u_lower U l in
      if has_stopword low then address_scan U ls
      else if any_digit U l then address_scan U ls
      else if length (py_split U l) \<ge> 2 then Some l
      else address_scan U ls)"

text \<open>The steps of \<open>parse_fields\<close>, each from \<open>data\<close> to \<open>data\<close>, in the source's order.\<close>

definition parse_emirates_id :: "unicode \<Rightarrow> pystr \<Rightarrow> pystr dict \<Rightarrow> pystr dict" where
  "parse_emirates_id U raw data =
     (case re_search U False id_re raw of
        None \<Rightarrow> data
      | Some m \<Rightarrow> dict_set data ''emirates_id'' (py_strip U (group0 raw m)))"

definition parse_labelled_name :: "unicode \<Rightarrow> pystr \<Rightarrow> pystr dict \<Rightarrow> py_error + pystr dict" where
  "parse_labelled_name U raw data =
     (case re_search U True name_re raw of
        None \<Rightarrow> Inr data
      | Some m \<Rightarrow>
          and_then (group1_strip U raw m) (\<lambda>name_val.
            Inr (dict_set data ''name''
                   (py_strip U (re_sub_empty U False trailing_punct_re name_val)))))"

definition parse_fallback_name ::
  "unicode \<Rightarrow> pystr \<Rightarrow> pystr dict \<Rightarrow> py_error + pystr dict" where
  "parse_fallback_name U normalized data =
     (if \<not> dict_has data ''name'' then
        (let lines = stripped_lines U normalized in
         and_then (name_scan U lines (enumerate 0 lines)) (\<lambda>candidate.
           case candidate of
             None \<Rightarrow> Inr data
           | Some c \<Rightarrow> if c \<noteq> [] then Inr (dict_set data ''name'' c) else Inr data))
      else Inr data)"

definition truthy :: "pystr option \<Rightarrow> bool" where
  "truthy v = (case v of None \<Rightarrow> False | Some s \<Rightarrow> s \<noteq> [])"

text \<open>\<open>if d: data[key] = format_date(d)\<close>\<close>

definition set_date :: "unicode \<Rightarrow> string \<Rightarrow> pystr option \<Rightarrow> pystr dict \<Rightarrow> pystr dict" where
  "set_date U key d data =
     (case d of
        None \<Rightarrow> data
      | Some v \<Rightarrow> if v \<noteq> [] then dict_set data key (format_date U v) else data)"

definition parse_dates :: "unicode \<Rightarrow> pystr \<Rightarrow> pystr dict \<Rightarrow> py_error + pystr dict" where
  "parse_dates U raw data0 =
     (let all_dates = re_findall_group U False date_pattern raw;
          dob = find_date_by_labels U raw dob_labels;
          issuing = find_date_by_labels U raw issuing_labels;
          expiry = find_date_by_labels U raw expiry_labels;
          data1 = set_date U ''dob'' dob data0;
          data2 = set_date U ''issuing_date'' issuing data1;
          data3 = set_date U ''expiry_date'' expiry data2
      in and_then
           (if \<not> dict_has data3 ''expiry_date'' \<and> all_dates \<noteq> [] then
              and_then (list_last_item all_dates) (\<lambda>d.
                Inr (dict_set data3 ''expiry_date'' (format_date U d)))
            else Inr data3)
           (\<lambda>data4.
              if \<not> truthy issuing \<and> all_dates \<noteq> [] then
                (if length all_dates \<ge> 2 then
                   and_then (list_item all_dates 1) (\<lambda>d.
                     Inr (dict_set data4 ''issuing_date'' (format_date U d)))
                 else Inr data4)
              else Inr data4))"

definition parse_nationality :: "unicode \<Rightarrow> pystr \<Rightarrow> pystr dict \<Rightarrow> py_error + pystr dict" where
  "parse_nationality U raw data =
     (case re_search U True nationality_re raw of
        None \<Rightarrow> Inr data
      | Some m \<Rightarrow>
          and_then (group1_strip U raw m) (\<lambda>v. Inr (dict_set data ''nationality'' v)))"

definition parse_gender :: "unicode \<Rightarrow> pystr \<Rightarrow> pystr dict \<Rightarrow> pystr dict" where
  "parse_gender U raw data = set_gender U (gender_scan U raw gender_patterns) data"

definition parse_address ::
  "unicode \<Rightarrow> pystr \<Rightarrow> pystr \<Rightarrow> pystr dict \<Rightarrow> py_error + pystr dict" where
  "parse_address U raw normalized data =
     (case re_search U True address_re raw of
        Some m \<Rightarrow> and_then (group1_strip U raw m) (\<lambda>v. Inr (dict_set data ''address'' v))
      | None \<Rightarrow>
          and_then
            (if dict_has data ''nationality'' then
               (let lines = stripped_lines U normalized in
                and_then (address_after_nationality U data lines (enumerate 0 lines)) (\<lambda>a.
                  case a of None \<Rightarrow> Inr data | Some cand \<Rightarrow> Inr (dict_set data ''address'' cand)))
             else Inr data)
            (\<lambda>data'.
               if \<not> dict_has data' ''address'' then
                 (case address_scan U (rev (stripped_lines U normalized)) of
                    None \<Rightarrow> Inr data'
                  | Some l \<Rightarrow> Inr (dict_set data' ''address'' l))
               else Inr data'))"

text \<open>\<open>v.strip().rstrip(':').strip()\<close> for every value of the dictionary.\<close>

definition clean_value :: "unicode \<Rightarrow> pystr \<Rightarrow> pystr" where
  "clean_value U v = py_strip U (py_rstrip_chars [58] (py_strip U v))"

definition parse_fields :: "unicode \<Rightarrow> pystr \<Rightarrow> py_error + pystr dict" where
  "parse_fields U text =
     (let raw = text;
          normalized = py_replace_char 13 10 raw
      in and_then (parse_labelled_name U raw (parse_emirates_id U raw [])) (\<lambda>data.
         and_then (parse_fallback_name U normalized data) (\<lambda>data.
         and_then (parse_dates U raw data) (\<lambda>data.
         and_then (parse_nationality U raw data) (\<lambda>data.
         and_then (parse_address U raw normalized (parse_gender U raw data)) (\<lambda>data.
         Inr (map (\<lambda>(k, v). (k, clean_value U v)) data)))))))"

section \<open>The back side extractor: parse\_back\_side\_fields (views.py)\<close>

text \<open>
  Each field has two patterns under \<open>(?i)\<close>: the labels followed by
  \<open>\s*[:\-]?\s*([^\n\r]{2,80})\<close>, and the labels followed by
  \<open>[\s\S]{1,100}?([^\n\r]{2,80})(?=\n|$)\<close>.
\<close>

definition back_patterns :: "pystr list \<Rightarrow> rx list" where
  "back_patterns labels =
     [ labelled_re labels 2 80,
       seq [alt (map chars labels), Rep (In [Spc, NotSpc]) 1 (Some 100) False,
            Grp (Rep (NotIn [Ch 10, Ch 13]) 2 (Some 80) True), Look (Or (Chr 10) Eos)] ]"

definition occupation_patterns :: "rx list" where
  "occupation_patterns =
     back_patterns [lit ''Occupation'', [0x627, 0x644, 0x645, 0x647, 0x646, 0x629],
                    lit ''Profession'', [0x627, 0x644, 0x648, 0x638, 0x64A, 0x641, 0x629]]"

definition employer_patterns :: "rx list" where
  "employer_patterns =
     back_patterns [lit ''Employer'',
                    [0x635, 0x627, 0x62D, 0x628, 0x20, 0x627, 0x644, 0x639, 0x645, 0x644],
                    lit ''Company'', [0x627, 0x644, 0x634, 0x631, 0x643, 0x629],
                    [0x62C, 0x647, 0x629, 0x20, 0x627, 0x644, 0x639, 0x645, 0x644]]"

definition issuing_place_patterns :: "rx list" where
  "issuing_place_patterns =
     back_patterns [lit ''Issuing Place'',
                    [0x645, 0x643, 0x627, 0x646, 0x20, 0x627, 0x644, 0x625, 0x635, 0x62F, 0x627,
                     0x631],
                    lit ''Place of Issue'',
                    [0x62C, 0x647, 0x629, 0x20, 0x627, 0x644, 0x625, 0x635, 0x62F, 0x627, 0x631]]"

definition sponsor_labels :: rx where
  "sponsor_labels =
     alt (map chars [lit ''Family Sponsor'',
                     [0x643, 0x641, 0x627, 0x644, 0x629, 0x20, 0x639, 0x627, 0x626, 0x644, 0x64A,
                      0x629],
                     lit ''Sponsor'', [0x643, 0x641, 0x627, 0x644, 0x629],
                     [0x627, 0x644, 0x6A9, 0x641, 0x627, 0x644, 0x629]])"

definition sponsor_answer :: rx where
  "sponsor_answer =
     Grp (alt (map chars [lit ''Yes'', lit ''No'', [0x646, 0x639, 0x645], [0x644, 0x627],
                          lit ''Y'', lit ''N'']))"

definition family_sponsor_patterns :: "rx list" where
  "family_sponsor_patterns =
     [ seq [sponsor_labels, spaces, opt_sep, spaces, sponsor_answer],
       seq [sponsor_labels, Rep (In [Spc, NotSpc]) 1 (Some 50) False, sponsor_answer] ]"

text \<open>\<open>[^\w\s\-]\<close>, which \<open>re.sub\<close> deletes from the value.\<close>

definition artifact_re :: rx where
  "artifact_re = Cls (NotIn [Wrd, Spc, Ch 45])"

text \<open>
  The loop of a free-text field: the cleaned value at the \<open>break\<close>, \<open>None\<close> when no
  pattern gives a value of more than one character.
\<close>

fun back_text_scan :: "unicode \<Rightarrow> pystr \<Rightarrow> rx list \<Rightarrow> py_error + pystr option" where
  "back_text_scan U raw [] = Inr None"
| "back_text_scan U raw (pattern # patterns) =
     (case re_search U True pattern raw of
        None \<Rightarrow> back_text_scan U raw patterns
      | Some m \<Rightarrow>
          and_then (group1_strip U raw m) (\<lambda>v.
            let cleaned = re_sub_empty U False artifact_re v in
            if length cleaned > 1 then Inr (Some cleaned)
            else back_text_scan U raw patterns))"

definition parse_back_text ::
  "unicode \<Rightarrow> pystr \<Rightarrow> rx list \<Rightarrow> string \<Rightarrow> pystr dict \<Rightarrow> py_error + pystr dict" where
  "parse_back_text U raw patterns key data =
     and_then (back_text_scan U raw patterns) (\<lambda>r.
       case r of None \<Rightarrow> Inr data | Some v \<Rightarrow> Inr (dict_set data key v))"

text \<open>The family sponsor loop stops at the first pattern that matches.\<close>

fun sponsor_scan :: "unicode \<Rightarrow> pystr \<Rightarrow> rx list \<Rightarrow> pystr dict \<Rightarrow> py_error + pystr dict" where
  "sponsor_scan U raw [] data = Inr data"
| "sponsor_scan U raw (pattern # patterns) data =
     (case re_search U True pattern raw of
        None \<Rightarrow> sponsor_scan U raw patterns data
      | Some m \<Rightarrow>
          and_then (group1_strip U raw m) (\<lambda>v.
            let value = u_lower U v in
            if value \<in> set [lit ''yes'', lit ''y'', [0x646, 0x639, 0x645]]
            then Inr (dict_set data ''family_sponsor'' (lit ''Yes''))
            else if value \<in> set [lit ''no'', lit ''n'', [0x644, 0x627]]
            then Inr (dict_set data ''family_sponsor'' (lit ''No''))
            else Inr data))"

definition parse_back_side_fields :: "unicode \<Rightarrow> pystr \<Rightarrow> py_error + pystr dict" where
  "parse_back_side_fields U text =
     (let raw = text
      in and_then (parse_back_text U raw occupation_patterns ''occupation'' []) (\<lambda>data.
         and_then (parse_back_text U raw employer_patterns ''employer'' data) (\<lambda>data.
         and_then (parse_back_text U raw issuing_place_patterns ''issuing_place'' data) (\<lambda>data.
         sponsor_scan U raw family_sponsor_patterns data))))"

section \<open>The recommendation: compute\_products\_based\_on\_data (views.py)\<close>

text \<open>
  The two model classes of models.py, with the columns that the functions read and
  write. A nullable column is an option.
\<close>

record emirates_id_record =
  r_emirates_id :: "pystr option"
  r_name :: "pystr option"
  r_dob :: "pystr option"
  r_issuing_date :: "pystr option"
  r_nationality :: "pystr option"
  r_gender :: "pystr option"
  r_address :: "pystr option"
  r_occupation :: "pystr option"
  r_employer :: "pystr option"
  r_issuing_place :: "pystr option"
  r_family_sponsor :: "pystr option"
  r_family_sponsor_name :: "pystr option"
  r_expiry_date :: "pystr option"

record chat_session =
  s_step :: pystr
  s_salary :: "pystr option"
  s_full_name :: "pystr option"
  s_emirates_id_number :: "pystr option"
  s_dob :: "pystr option"
  s_expiry :: "pystr option"
  s_nationality :: "pystr option"
  s_occupation :: "pystr option"
  s_emirates_id_uploaded :: bool

text \<open>\<open>x or ""\<close>\<close>

definition or_empty :: "pystr option \<Rightarrow> pystr" where
  "or_empty v = (case v of None \<Rightarrow> [] | Some s \<Rightarrow> s)"

text \<open>The issuing place, from \<open>issuing_raw\<close> to \<open>place\<close>.\<close>

definition normalize_place :: "unicode \<Rightarrow> pystr \<Rightarrow> pystr option" where
  "normalize_place U issuing_raw =
     (let issuing_norm = u_lower U (py_strip U issuing_raw) in
      if issuing_norm \<noteq> [] then
        (if (py_in (lit ''abu'') issuing_norm \<and> \<not> py_in (lit ''dub'') issuing_norm)
            \<or> py_in (lit ''adhabi'') issuing_norm \<or> py_in (lit ''adabi'') issuing_norm
            \<or> py_in (lit ''abudhabi'') issuing_norm \<or> py_in (lit ''abud'') issuing_norm
         then Some (lit ''Abu Dhabi'')
         else if py_in (lit ''duba'') issuing_norm \<or> py_in (lit ''dubai'') issuing_norm
                 \<or> py_in (lit ''dubi'') issuing_norm
         then Some (lit ''Dubai'')
         else if py_in (lit ''abu dhabi'') issuing_norm then Some (lit ''Abu Dhabi'')
         else if py_in (lit ''dubai'') issuing_norm then Some (lit ''Dubai'')
         else if issuing_raw \<noteq> [] then Some (u_title U (py_strip U issuing_raw))
         else None)
      else None)"

text \<open>
  The salary band by the substring rules, from the lower-cased \<open>salary_raw\<close>: the
  first chain of the source and, in its \<open>else\<close>, the second.
\<close>

definition salary_by_rules :: "unicode \<Rightarrow> pystr \<Rightarrow> string option" where
  "salary_by_rules U salary_raw =
     (if py_in (lit ''below'') salary_raw \<and> py_in (lit ''4000'') salary_raw
      then Some ''below_4000''
      else if py_in (lit ''4000'') salary_raw \<and> py_in (lit ''5000'') salary_raw
      then Some ''4000_5000''
      else if py_in (lit ''above'') salary_raw
              \<and> (py_in (lit ''5000'') salary_raw \<or> py_in (lit ''5000'') salary_raw)
      then Some ''above_5000''
      else if py_in (lit ''below 4000'') salary_raw
              \<or> py_strip U salary_raw = lit ''below 4000 aed''
              \<or> py_strip U salary_raw = lit ''below 4000''
      then Some ''below_4000''
      else if py_in (lit ''4000 - 5000'') salary_raw \<or> py_in (lit ''4000-5000'') salary_raw
              \<or> py_in (lit ''4000 to 5000'') salary_raw
      then Some ''4000_5000''
      else if py_in (lit ''above 5000'') salary_raw \<or> py_in (lit ''more than 5000'') salary_raw
              \<or> py_in (lit ''5000+'') salary_raw \<or> py_in (lit ''5000 ='') salary_raw
      then Some ''above_5000''
      else None)"

text \<open>\<open>[int(d) for d in digits]\<close> raises at the first element that does.\<close>

fun map_raising :: "('a \<Rightarrow> py_error + 'b) \<Rightarrow> 'a list \<Rightarrow> py_error + 'b list" where
  "map_raising f [] = Inr []"
| "map_raising f (x # xs) =
     and_then (f x) (\<lambda>y. and_then (map_raising f xs) (\<lambda>ys. Inr (y # ys)))"

text \<open>The numeric fallback: \<open>re.findall(r'\d+', salary_raw)\<close> and the bucket of the first number.\<close>

definition number_re :: rx where
  "number_re = Rep (In [Dig]) 1 None True"

definition salary_by_number :: "unicode \<Rightarrow> pystr \<Rightarrow> py_error + string option" where
  "salary_by_number U salary_raw =
     (let digits = re_findall U False number_re salary_raw in
      if digits \<noteq> [] then
        and_then (map_raising (py_int U) digits) (\<lambda>nums.
          and_then (list_item nums 0) (\<lambda>n.
            if n < 4000 then Inr (Some ''below_4000'')
            else if 4000 \<le> n \<and> n \<le> 5000 then Inr (Some ''4000_5000'')
            else if n > 5000 then Inr (Some ''above_5000'')
            else Inr None))
      else Inr None)"

definition normalize_salary :: "unicode \<Rightarrow> pystr \<Rightarrow> py_error + string option" where
  "normalize_salary U salary_raw =
     (let salary_key = salary_by_rules U salary_raw in
      if salary_key = None \<and> salary_raw \<noteq> [] then salary_by_number U salary_raw
      else Inr salary_key)"

text \<open>A product is a dictionary of its name, price, plan and URL.\<close>

type_synonym product = "string dict"

definition product4 :: "string \<Rightarrow> string \<Rightarrow> string \<Rightarrow> string \<Rightarrow> product" where
  "product4 name price plan url =
     [(''name'', name), (''price'', price), (''plan'', plan), (''url'', url)]"

definition dha_nlsb :: product where
  "dha_nlsb =
     product4 ''DHA-Basic'' ''864.00'' ''NLSB''
       ''https://gia-insurance-provider.com/dha-basic-nlsb''"

definition dha_lsb :: product where
  "dha_lsb =
     product4 ''DHA-Basic'' ''1893.00'' ''LSB''
       ''https://gia-insurance-provider.com/dha-basic-lsb''"

text \<open>The table of the helper: the products and the message for a place and a band.\<close>

definition build_products :: "pystr option \<Rightarrow> string option \<Rightarrow> product list \<times> string option" where
  "build_products place salary_key =
     (if place = Some (lit ''Dubai'') then
        (if salary_key = Some ''below_4000'' then ([dha_nlsb], None)
         else if salary_key \<in> {Some ''4000_5000'', Some ''above_5000''}
         then ([dha_nlsb, dha_lsb], None)
         else ([dha_lsb], None))
      else if place = Some (lit ''Abu Dhabi'') then
        (if salary_key \<in> {Some ''below_4000'', Some ''4000_5000''}
         then ([], Some ''The minimum requirement for this product plan is above 5000 AED'')
         else if salary_key = Some ''above_5000''
         then ([product4 ''Abu Dhabi Eligible Plan'' ''1350.00 AED'' ''Premium''
                  ''https://gia-insurance-provider.com/abu-dhabi-premium''], None)
         else ([], Some (''Please ensure your salary is above 5000 AED to see available ''
                         @ ''plans for Abu Dhabi.'')))
      else
        (if salary_key = Some ''above_5000''
         then ([product4 ''General Plan (Eligible)'' ''999.00 AED'' ''Standard''
                  ''https://gia-insurance-provider.com/general-plan''], None)
         else ([], Some (''We couldn't determine issuing place precisely. If you'd like, ''
                         @ ''please confirm the issuing place (Dubai or Abu Dhabi).''))))"

definition compute_products_based_on_data ::
  "unicode \<Rightarrow> chat_session option \<Rightarrow> emirates_id_record option
     \<Rightarrow> py_error + (product list \<times> string option)" where
  "compute_products_based_on_data U session record =
     (let issuing_raw = (case record of None \<Rightarrow> [] | Some r \<Rightarrow> or_empty (r_issuing_place r));
          place = normalize_place U issuing_raw;
          salary_raw = (case session of None \<Rightarrow> []
                        | Some s \<Rightarrow> u_lower U (or_empty (s_salary s)))
      in and_then (normalize_salary U salary_raw) (\<lambda>salary_key.
           Inr (build_products place salary_key)))"

section \<open>The OCR calls (ocr\_space.py)\<close>

text \<open>
  The OCR service is outside the repository. A call either fails in the transport
  (\<open>requests.RequestException\<close>), fails otherwise (any other exception, as when the
  image does not open or the answer is not JSON), or gives an HTTP status and a JSON
  answer with \<open>IsErroredOnProcessing\<close> and the \<open>ParsedText\<close> of each page of
  \<open>ParsedResults\<close>. An uploaded file is its name and what the service answers for it
  in each language. The functions return the text and the exit code; the error text,
  which only goes into the error response, is left out.
\<close>

datatype lang = Eng | Ara

record api_json =
  j_errored :: bool
  j_parsed_results :: "pystr list"

datatype api_reply = Request_failed | Other_failure | Reply nat api_json

record upload_file =
  f_name :: pystr
  f_reply :: "lang \<Rightarrow> api_reply"

definition ocr_space_file :: "unicode \<Rightarrow> upload_file \<Rightarrow> lang \<Rightarrow> pystr \<times> nat" where
  "ocr_space_file U file_obj language =
     (case f_reply file_obj language of
        Request_failed \<Rightarrow> ([], 1)
      | Other_failure \<Rightarrow> ([], 6)
      | Reply status j \<Rightarrow>
          if status \<noteq> 200 then ([], 2)
          else if j_errored j then ([], 4)
          else (case j_parsed_results j of
                  [] \<Rightarrow> ([], 5)
                | parsed_text # _ \<Rightarrow> (py_strip U parsed_text, 0)))"

text \<open>The text of all pages: each page with text, followed by a blank line.\<close>

definition combine_pages :: "unicode \<Rightarrow> pystr list \<Rightarrow> pystr" where
  "combine_pages U parsed_results =
     concat [page_text @ [10, 10]. page_text \<leftarrow> parsed_results, py_strip U page_text \<noteq> []]"

definition ocr_space_pdf_all_pages :: "unicode \<Rightarrow> upload_file \<Rightarrow> pystr \<times> nat" where
  "ocr_space_pdf_all_pages U file_obj =
     (case f_reply file_obj Eng of
        Request_failed \<Rightarrow> ([], 1)
      | Other_failure \<Rightarrow> ([], 6)
      | Reply status j \<Rightarrow>
          if status \<noteq> 200 then ([], 2)
          else if j_errored j then ([], 4)
          else if j_parsed_results j = [] then ([], 5)
          else
            (let combined_text = combine_pages U (j_parsed_results j) in
             if length (py_strip U combined_text) > 10 then (py_strip U combined_text, 0)
             else
               (case f_reply file_obj Ara of
                  Request_failed \<Rightarrow> ([], 1)
                | Other_failure \<Rightarrow> ([], 6)
                | Reply status' j' \<Rightarrow>
                    if status' \<noteq> 200 then (py_strip U combined_text, 0)
                    else if j_errored j' then (py_strip U combined_text, 0)
                    else if j_parsed_results j' = [] then (py_strip U combined_text, 0)
                    else (py_strip U (combine_pages U (j_parsed_results j')), 0))))"

definition ocr_space_file_multi_lang :: "unicode \<Rightarrow> upload_file \<Rightarrow> bool \<Rightarrow> pystr \<times> nat" where
  "ocr_space_file_multi_lang U file_obj is_pdf =
     (if is_pdf then ocr_space_pdf_all_pages U file_obj
      else
        (let (eng_text, eng_code) = ocr_space_file U file_obj Eng in
         if eng_code = 0 \<and> length (py_strip U eng_text) > 10 then (eng_text, eng_code)
         else
           (let (ara_text, ara_code) = ocr_space_file U file_obj Ara in
            if ara_code = 0 then (ara_text, ara_code) else (eng_text, eng_code))))"

section \<open>The upload: emirates\_id\_upload (views.py)\<close>

record processed_file =
  pf_name :: pystr
  pf_text :: pystr
  pf_side :: side
  pf_is_pdf :: bool

text \<open>\<open>s.endswith(suffix)\<close>\<close>

definition endswith :: "'a list \<Rightarrow> 'a list \<Rightarrow> bool" where
  "endswith s suffix = startswith (rev s) (rev suffix)"

text \<open>
  The loop over the files: \<open>Inl\<close> of the name of the first file whose OCR fails (the
  handler answers 500), else the processed files in order.
\<close>

fun process_files :: "unicode \<Rightarrow> upload_file list \<Rightarrow> pystr + processed_file list" where
  "process_files U [] = Inr []"
| "process_files U (file_obj # files) =
     (let is_pdf = endswith (u_lower U (f_name file_obj)) (lit ''.pdf'');
          (text, code) = ocr_space_file_multi_lang U file_obj is_pdf
      in if code \<noteq> 0 then Inl (f_name file_obj)
         else (case process_files U files of
                 Inl name \<Rightarrow> Inl name
               | Inr processed \<Rightarrow>
                   Inr (\<lparr> pf_name = f_name file_obj, pf_text = text,
                          pf_side = detect_document_side U text, pf_is_pdf = is_pdf \<rparr>
                        # processed)))"

definition front_texts_of :: "processed_file list \<Rightarrow> pystr list" where
  "front_texts_of processed_files =
     [pf_text f. f \<leftarrow> processed_files, pf_side f \<in> set [Front, Unknown]]"

definition back_texts_of :: "processed_file list \<Rightarrow> pystr list" where
  "back_texts_of processed_files = [pf_text f. f \<leftarrow> processed_files, pf_side f = Back]"

text \<open>
  The two combined texts: the join of each group and then the two branches after the
  comment "If no clear side detection, use heuristics".
\<close>

definition combine_texts :: "pystr list \<Rightarrow> pystr list \<Rightarrow> pystr \<times> pystr" where
  "combine_texts front_texts back_texts =
     (let front_combined = (if front_texts \<noteq> [] then py_join (lit '' '') front_texts else []);
          back_combined = (if back_texts \<noteq> [] then py_join (lit '' '') back_texts else [])
      in if front_combined = [] \<and> back_combined \<noteq> [] then (back_combined, back_combined)
         else if back_combined = [] \<and> front_combined \<noteq> [] then (front_combined, [])
         else (front_combined, back_combined))"

text \<open>
  \<open>(?:family sponsor name|...)\s*[:\-]?\s*([^\n\r]{2,80})\<close> with \<open>re.IGNORECASE\<close>, asked
  for when the family sponsor is "Yes".
\<close>

definition sponsor_name_re :: rx where
  "sponsor_name_re =
     labelled_re [lit ''family sponsor name'',
                  [0x627, 0x633, 0x645, 0x20, 0x627, 0x644, 0x643, 0x641, 0x64A, 0x644],
                  [0x643, 0x641, 0x64A, 0x644]] 2 80"

definition find_family_sponsor_name ::
  "unicode \<Rightarrow> pystr dict \<Rightarrow> pystr \<Rightarrow> py_error + pystr option" where
  "find_family_sponsor_name U back_data back_combined =
     (if dict_get back_data ''family_sponsor'' = Some (lit ''Yes'') then
        (case re_search U True sponsor_name_re back_combined of
           None \<Rightarrow> Inr None
         | Some m \<Rightarrow> and_then (group1_strip U back_combined m) (\<lambda>v. Inr (Some v)))
      else Inr None)"

text \<open>The attributes of a record by name: \<open>hasattr\<close>, \<open>getattr(record, field, None)\<close>, \<open>setattr\<close>.\<close>

definition record_fields :: "string list" where
  "record_fields =
     [''emirates_id'', ''name'', ''dob'', ''issuing_date'', ''nationality'', ''gender'',
      ''address'', ''occupation'', ''employer'', ''issuing_place'', ''family_sponsor'',
      ''family_sponsor_name'', ''expiry_date'']"

definition rec_hasattr :: "string \<Rightarrow> bool" where
  "rec_hasattr field = (field \<in> set record_fields)"

definition rec_getattr :: "emirates_id_record \<Rightarrow> string \<Rightarrow> pystr option" where
  "rec_getattr record field =
     (if field = ''emirates_id'' then r_emirates_id record
      else if field = ''name'' then r_name record
      else if field = ''dob'' then r_dob record
      else if field = ''issuing_date'' then r_issuing_date record
      else if field = ''nationality'' then r_nationality record
      else if field = ''gender'' then r_gender record
      else if field = ''address'' then r_address record
      else if field = ''occupation'' then r_occupation record
      else if field = ''employer'' then r_employer record
      else if field = ''issuing_place'' then r_issuing_place record
      else if field = ''family_sponsor'' then r_family_sponsor record
      else if field = ''family_sponsor_name'' then r_family_sponsor_name record
      else if field = ''expiry_date'' then r_expiry_date record
      else None)"

definition rec_setattr :: "emirates_id_record \<Rightarrow> string \<Rightarrow> pystr \<Rightarrow> emirates_id_record" where
  "rec_setattr record field v =
     (if field = ''emirates_id'' then record\<lparr>r_emirates_id := Some v\<rparr>
      else if field = ''name'' then record\<lparr>r_name := Some v\<rparr>
      else if field = ''dob'' then record\<lparr>r_dob := Some v\<rparr>
      else if field = ''issuing_date'' then record\<lparr>r_issuing_date := Some v\<rparr>
      else if field = ''nationality'' then record\<lparr>r_nationality := Some v\<rparr>
      else if field = ''gender'' then record\<lparr>r_gender := Some v\<rparr>
      else if field = ''address'' then record\<lparr>r_address := Some v\<rparr>
      else if field = ''occupation'' then record\<lparr>r_occupation := Some v\<rparr>
      else if field = ''employer'' then record\<lparr>r_employer := Some v\<rparr>
      else if field = ''issuing_place'' then record\<lparr>r_issuing_place := Some v\<rparr>
      else if field = ''family_sponsor'' then record\<lparr>r_family_sponsor := Some v\<rparr>
      else if field = ''family_sponsor_name'' then record\<lparr>r_family_sponsor_name := Some v\<rparr>
      else if field = ''expiry_date'' then record\<lparr>r_expiry_date := Some v\<rparr>
      else record)"

text \<open>The record that \<open>get_or_create\<close> creates from its \<open>defaults\<close>.\<close>

definition create_record ::
  "pystr dict \<Rightarrow> pystr dict \<Rightarrow> pystr option \<Rightarrow> emirates_id_record" where
  "create_record front_data back_data family_sponsor_name =
     \<lparr> r_emirates_id = dict_get front_data ''emirates_id'',
       r_name = dict_get front_data ''name'',
       r_dob = dict_get front_data ''dob'',
       r_issuing_date = dict_get front_data ''issuing_date'',
       r_nationality = dict_get front_data ''nationality'',
       r_gender = dict_get front_data ''gender'',
       r_address = dict_get front_data ''address'',
       r_occupation = dict_get back_data ''occupation'',
       r_employer = dict_get back_data ''employer'',
       r_issuing_place = dict_get back_data ''issuing_place'',
       r_family_sponsor = dict_get back_data ''family_sponsor'',
       r_family_sponsor_name = family_sponsor_name,
       r_expiry_date = dict_get front_data ''expiry_date'' \<rparr>"

text \<open>
  The update of an existing record: the loop over the items of
  \<open>{**front_data, **back_data}\<close>, then the family sponsor name.
\<close>

fun update_loop :: "emirates_id_record \<Rightarrow> (string \<times> pystr) list \<Rightarrow> emirates_id_record" where
  "update_loop record [] = record"
| "update_loop record ((field, v) # items) =
     (if rec_hasattr field \<and> v \<noteq> [] then update_loop (rec_setattr record field v) items
      else update_loop record items)"

definition update_record ::
  "emirates_id_record \<Rightarrow> pystr dict \<Rightarrow> pystr dict \<Rightarrow> pystr option \<Rightarrow> emirates_id_record" where
  "update_record record front_data back_data family_sponsor_name =
     (let record' = update_loop record (dict_merge front_data back_data) in
      if truthy family_sponsor_name
      then record'\<lparr>r_family_sponsor_name := family_sponsor_name\<rparr>
      else record')"

text \<open>The session takes a value of the record only where its own field is empty.\<close>

definition sync_field :: "pystr option \<Rightarrow> pystr option \<Rightarrow> pystr option" where
  "sync_field record_value session_value =
     (if truthy record_value \<and> \<not> truthy session_value then record_value else session_value)"

definition sync_session :: "emirates_id_record \<Rightarrow> chat_session \<Rightarrow> chat_session" where
  "sync_session record session =
     session\<lparr> s_full_name := sync_field (r_name record) (s_full_name session),
              s_emirates_id_number :=
                sync_field (r_emirates_id record) (s_emirates_id_number session),
              s_dob := sync_field (r_dob record) (s_dob session),
              s_expiry := sync_field (r_expiry_date record) (s_expiry session),
              s_nationality := sync_field (r_nationality record) (s_nationality session),
              s_occupation := sync_field (r_occupation record) (s_occupation session),
              s_emirates_id_uploaded := True \<rparr>"

text \<open>The missing fields.\<close>

definition expected_front :: "string list" where
  "expected_front =
     [''emirates_id'', ''name'', ''dob'', ''nationality'', ''gender'', ''address'',
      ''issuing_date'', ''expiry_date'']"

definition expected_back :: "string list" where
  "expected_back = [''occupation'', ''employer'', ''issuing_place'']"

definition missing_fields :: "emirates_id_record \<Rightarrow> string list" where
  "missing_fields record =
     [field. field \<leftarrow> expected_front @ expected_back, \<not> truthy (rec_getattr record field)]
     @ (if r_family_sponsor record = Some (lit ''Yes'')
           \<and> \<not> truthy (r_family_sponsor_name record)
        then [''family_sponsor_name''] else [])"

text \<open>
  The table written out in the handler, whose result replaces that of the helper,
  called just before, and the loop that gives each product its URL.
\<close>

definition product3 :: "string \<Rightarrow> string \<Rightarrow> string \<Rightarrow> product" where
  "product3 name price plan = [(''name'', name), (''price'', price), (''plan'', plan)]"

definition upload_products :: "pystr option \<Rightarrow> string option \<Rightarrow> product list \<times> string option" where
  "upload_products place salary_key =
     (if place = Some (lit ''Dubai'') then
        (if salary_key = Some ''below_4000''
         then ([product3 ''DHA-Basic'' ''864.00'' ''NLSB''], None)
         else if salary_key \<in> {Some ''4000_5000'', Some ''above_5000''}
         then ([product3 ''DHA-Basic'' ''1893.00'' ''LSB'',
                product3 ''DHA-Basic'' ''1893.00'' ''LSB''], None)
         else ([product3 ''DHA-Basic'' ''1893.00'' ''LSB''], None))
      else if place = Some (lit ''Abu Dhabi'') then
        (if salary_key \<in> {Some ''below_4000'', Some ''4000_5000''}
         then ([], Some ''The minimum requirement for this product plan is above 5000 AED'')
         else if salary_key = Some ''above_5000''
         then ([product3 ''Abu Dhabi Eligible Plan'' ''1350.00 AED'' ''Premium''], None)
         else ([], Some (''Please ensure your salary is above 5000 AED to see available ''
                         @ ''plans for Abu Dhabi.'')))
      else
        (if salary_key = Some ''above_5000''
         then ([product3 ''General Plan (Eligible)'' ''999.00 AED'' ''Standard''], None)
         else ([], Some (''We couldn't determine issuing place precisely. If you'd like, ''
                         @ ''please confirm the issuing place (Dubai or Abu Dhabi).''))))"

definition assign_url :: "product \<Rightarrow> py_error + product" where
  "assign_url p =
     and_then (dict_item p ''name'') (\<lambda>name.
       and_then
         (if py_in ''DHA-Basic'' name then
            and_then (dict_item p ''plan'') (\<lambda>plan.
              if plan = ''NLSB''
              then Inr (dict_set p ''url'' ''https://gia-insurance-provider.com/dha-basic-nlsb'')
              else and_then (dict_item p ''plan'') (\<lambda>plan'.
                if plan' = ''LSB''
                then Inr (dict_set p ''url'' ''https://gia-insurance-provider.com/dha-basic-lsb'')
                else Inr (dict_set p ''url'' ''https://gia-insurance-provider.com/dha-basic'')))
          else if py_in ''Abu Dhabi'' name
          then Inr (dict_set p ''url'' ''https://gia-insurance-provider.com/abu-dhabi-premium'')
          else Inr (dict_set p ''url'' ''https://gia-insurance-provider.com/general-plan''))
         (\<lambda>p'. and_then (dict_item p' ''url'') (\<lambda>url.
            if \<not> (startswith url ''http://'' \<or> startswith url ''https://'')
            then Inr (dict_set p' ''url'' (''https://'' @ url))
            else Inr p')))"

text \<open>The response of a successful upload.\<close>

record upload_response =
  resp_fields :: "pystr dict"
  resp_missing_fields :: "string list"
  resp_front_detected :: bool
  resp_back_detected :: bool
  resp_next_step :: string
  resp_files_processed :: nat
  resp_issuing_place_detected :: "pystr option"
  resp_products :: "product list"
  resp_message :: "string option"
  resp_ask_mobile :: bool

datatype http_answer = Rejected nat | Uploaded upload_response

text \<open>
  \<open>session.mobile\<close>: the class \<open>ChatSession\<close> of models.py declares no field, property or
  method of that name, and the handler assigns none to the object it fetched, so the
  attribute lookup raises \<open>AttributeError\<close> whatever the session holds.
\<close>

definition session_mobile :: "chat_session \<Rightarrow> py_error + pystr option" where
  "session_mobile session = Inl AttributeError"

text \<open>
  The handler from the point where the session is found, in four parts. The first is
  the loop over the files above. The second, \<open>upload_body\<close>, runs from the grouping of
  the texts to the choice of the next step: it extracts the fields, creates or updates
  the record of the session, copies values into the session and lists the missing
  fields. Its result holds the local variables that the rest of the handler reads;
  \<open>l_record\<close> and \<open>l_session\<close> are the two objects as \<open>get_or_create\<close> and the calls of
  \<open>save\<close> in this part write them. The \<open>raw_response\<close> column of the record is not
  modelled.
\<close>

record upload_locals =
  l_front_texts :: "pystr list"
  l_back_texts :: "pystr list"
  l_front_data :: "pystr dict"
  l_back_data :: "pystr dict"
  l_family_sponsor_name :: "pystr option"
  l_record :: emirates_id_record
  l_session :: chat_session
  l_missing :: "string list"
  l_files_processed :: nat

definition upload_body ::
  "unicode \<Rightarrow> chat_session \<Rightarrow> emirates_id_record option \<Rightarrow> processed_file list
     \<Rightarrow> py_error + upload_locals" where
  "upload_body U session existing processed_files =
     (let front_texts = front_texts_of processed_files;
          back_texts = back_texts_of processed_files;
          (front_combined, back_combined) = combine_texts front_texts back_texts
      in and_then (parse_fields U front_combined) (\<lambda>front_data.
         and_then (parse_back_side_fields U back_combined) (\<lambda>back_data.
         and_then (find_family_sponsor_name U back_data back_combined)
           (\<lambda>family_sponsor_name.
         let record =
               (case existing of
                  None \<Rightarrow> create_record front_data back_data family_sponsor_name
                | Some r \<Rightarrow> update_record r front_data back_data family_sponsor_name);
             session1 = sync_session record session;
             missing = missing_fields record;
             has_back_side = list_ex (\<lambda>f. pf_side f = Back) processed_files;
             session2 =
               (if has_back_side
                   \<and> s_step session1
                       \<in> set [lit ''awaiting_id_frontside'', lit ''awaiting_id_backside'']
                then session1\<lparr>s_step := lit ''complete''\<rparr> else session1)
         in Inr \<lparr> l_front_texts = front_texts, l_back_texts = back_texts,
                  l_front_data = front_data, l_back_data = back_data,
                  l_family_sponsor_name = family_sponsor_name,
                  l_record = record, l_session = session2, l_missing = missing,
                  l_files_processed = length processed_files \<rparr>))))"

text \<open>
  The third part: the call of the helper, whose result the handler then overwrites
  with the place, the products and the message of its own normalization and table.
\<close>

definition upload_recommend ::
  "unicode \<Rightarrow> upload_locals \<Rightarrow> py_error + (pystr option \<times> product list \<times> string option)" where
  "upload_recommend U l =
     and_then (compute_products_based_on_data U (Some (l_session l)) (Some (l_record l)))
       (\<lambda>helper_result.
     let place = normalize_place U (or_empty (r_issuing_place (l_record l))) in
     and_then (normalize_salary U (u_lower U (or_empty (s_salary (l_session l)))))
       (\<lambda>salary_key.
     let (products, message) = upload_products place salary_key in
     Inr (place, products, message)))"

text \<open>
  The fourth part: \<open>ask_mobile = not bool(session.mobile)\<close>, the loop that gives each
  product its URL, and the response.
\<close>

definition upload_respond ::
  "upload_locals \<Rightarrow> pystr option \<Rightarrow> product list \<Rightarrow> string option
     \<Rightarrow> py_error + upload_response" where
  "upload_respond l place products message =
     and_then (session_mobile (l_session l)) (\<lambda>mobile.
     let ask_mobile = \<not> truthy mobile in
     and_then (map_raising assign_url products) (\<lambda>products'.
     Inr \<lparr> resp_fields = dict_merge (l_front_data l) (l_back_data l),
           resp_missing_fields = l_missing l,
           resp_front_detected = (l_front_texts l \<noteq> []),
           resp_back_detected = (l_back_texts l \<noteq> []),
           resp_next_step = ''complete'',
           resp_files_processed = l_files_processed l,
           resp_issuing_place_detected = place,
           resp_products = products',
           resp_message = message,
           resp_ask_mobile = ask_mobile \<rparr>))"

text \<open>
  The handler: \<open>session\<close> is the session of the request, \<open>existing\<close> its identity
  record if it has one, \<open>files\<close> the uploaded files. The result is the response that
  the handler returns, or the exception that leaves it.
\<close>

definition emirates_id_upload ::
  "unicode \<Rightarrow> chat_session \<Rightarrow> emirates_id_record option \<Rightarrow> upload_file list
     \<Rightarrow> py_error + http_answer" where
  "emirates_id_upload U session existing files =
     (if files = [] then Inr (Rejected 400)
      else case process_files U files of
        Inl name \<Rightarrow> Inr (Rejected 500)
      | Inr processed_files \<Rightarrow>
          and_then (upload_body U session existing processed_files) (\<lambda>l.
          and_then (upload_recommend U l) (\<lambda>(place, products, message).
          and_then (upload_respond l place products message) (\<lambda>resp.
          Inr (Uploaded resp)))))"

section \<open>Notions used in the statements\<close>



text \<open>
  A dictionary that came from another one by assignments to keys of \<open>K\<close>: its keys stay
  distinct and every other key keeps its value.
\<close>

definition grows :: "string set \<Rightarrow> 'v dict \<Rightarrow> 'v dict \<Rightarrow> bool" where
  "grows K data d =
     ((distinct (map fst data) \<longrightarrow> distinct (map fst d))
      \<and> (\<forall>k. k \<notin> K \<longrightarrow> map_of d k = map_of data k))"

text \<open>The keys that the steps of \<open>parse_fields\<close> after the identity number assign.\<close>

definition front_keys :: "string set" where
  "front_keys = {''name'', ''dob'', ''issuing_date'', ''expiry_date'', ''nationality'',
                 ''gender'', ''sex'', ''address''}"

text \<open>The keys that \<open>parse_back_side_fields\<close> assigns.\<close>

definition back_keys :: "string set" where
  "back_keys = {''occupation'', ''employer'', ''issuing_place'', ''family_sponsor''}"

text \<open>
  What the statements about blank texts ask of the tables: the empty string has no
  lower-case letters, the space is whitespace, is no digit, and matches only itself
  under \<open>(?i)\<close>.
\<close>

definition blank_tables :: "unicode \<Rightarrow> bool" where
  "blank_tables U =
     (u_lower U [] = [] \<and> u_space U 32 \<and> u_decimal U 32 = None
      \<and> (\<forall>p. u_ieq U p 32 \<longleftrightarrow> p = 32))"

text \<open>A pattern that cannot match without a character other than the space.\<close>

fun rejects_space :: "unicode \<Rightarrow> bool \<Rightarrow> rx \<Rightarrow> bool" where
  "rejects_space U ic (Chr p) = (\<not> chr_ok U ic p 32)"
| "rejects_space U ic (Cls c) = (\<not> cclass_ok U ic c 32)"
| "rejects_space U ic (Rep c lo hi greedy) = (0 < lo \<and> \<not> cclass_ok U ic c 32)"
| "rejects_space U ic (Seq a b) = (rejects_space U ic a \<or> rejects_space U ic b)"
| "rejects_space U ic (Or a b) = (rejects_space U ic a \<and> rejects_space U ic b)"
| "rejects_space U ic (Grp a) = rejects_space U ic a"
| "rejects_space U ic r = False"

text \<open>
  An OCR call that succeeds with no text: status 200, no processing error, at least one
  page, and every page empty once stripped. A file whose calls in both languages do so.
\<close>

definition empty_answer :: "unicode \<Rightarrow> api_reply \<Rightarrow> bool" where
  "empty_answer U a =
     (case a of
        Reply status j \<Rightarrow>
          status = 200 \<and> \<not> j_errored j \<and> j_parsed_results j \<noteq> []
          \<and> list_all (\<lambda>p. py_strip U p = []) (j_parsed_results j)
      | _ \<Rightarrow> False)"

definition ocr_empty :: "unicode \<Rightarrow> upload_file \<Rightarrow> bool" where
  "ocr_empty U f = (empty_answer U (f_reply f Eng) \<and> empty_answer U (f_reply f Ara))"

text \<open>
  Inputs of the examples: an image for which the service finds no text, a session whose
  salary answer is "4000 - 5000 AED", and a stored record issued in Dubai.
\<close>

definition empty_image :: upload_file where
  "empty_image =
     \<lparr> f_name = lit ''id.jpg'',
       f_reply = (\<lambda>l. Reply 200 \<lparr> j_errored = False, j_parsed_results = [[]] \<rparr>) \<rparr>"

definition dubai_session :: chat_session where
  "dubai_session =
     \<lparr> s_step = lit ''awaiting_id_backside'', s_salary = Some (lit ''4000 - 5000 AED''),
       s_full_name = None, s_emirates_id_number = None, s_dob = None, s_expiry = None,
       s_nationality = None, s_occupation = None, s_emirates_id_uploaded = False \<rparr>"

definition dubai_record :: emirates_id_record where
  "dubai_record =
     \<lparr> r_emirates_id = None, r_name = Some (lit ''Sara Ali''), r_dob = None,
       r_issuing_date = None, r_nationality = None, r_gender = None, r_address = None,
       r_occupation = None, r_employer = None, r_issuing_place = Some (lit ''Dubai''),
       r_family_sponsor = None, r_family_sponsor_name = None, r_expiry_date = None \<rparr>"

text \<open>
  The processed file of an image without text, and an image on which the service reads
  "Name: Bo" in both languages, with its processed file.
\<close>

definition blank_page :: processed_file where
  "blank_page = \<lparr> pf_name = lit ''id.jpg'', pf_text = [], pf_side = Unknown, pf_is_pdf = False \<rparr>"

definition name_image :: upload_file where
  "name_image =
     \<lparr> f_name = lit ''front.jpg'',
       f_reply = (\<lambda>l. Reply 200 \<lparr> j_errored = False, j_parsed_results = [lit ''Name: Bo''] \<rparr>) \<rparr>"

definition name_page :: processed_file where
  "name_page =
     \<lparr> pf_name = lit ''front.jpg'', pf_text = lit ''Name: Bo'', pf_side = Front,
       pf_is_pdf = False \<rparr>"

text \<open>A pattern whose every match sets the capture group.\<close>

fun has_grp :: "rx \<Rightarrow> bool" where
  "has_grp (Grp a) = True"
| "has_grp (Mark st) = True"
| "has_grp (Seq a b) = (has_grp a \<or> has_grp b)"
| "has_grp (Or a b) = (has_grp a \<and> has_grp b)"
| "has_grp r = False"

section \<open>Substrings and exceptions\<close>



lemma and_then_Inr [simp]: "and_then (Inr v) f = f v"
  by (simp add: and_then_def)

lemma and_then_Inl [simp]: "and_then (Inl e) f = Inl e"
  by (simp add: and_then_def)

lemma list_item_ok: "i < length xs \<Longrightarrow> list_item xs i = Inr (xs ! i)"
  by (simp add: list_item_def)

lemma list_last_item_ok: "xs \<noteq> [] \<Longrightarrow> list_last_item xs = Inr (last xs)"
  by (cases xs rule: rev_cases) (auto simp: list_last_item_def)

section \<open>The matcher sets the group\<close>

lemma first_some_Some: "first_some xs = Some y \<Longrightarrow> Some y \<in> set xs"
  by (induction xs rule: first_some.induct) auto

lemma first_some_None: "first_some xs = None \<longleftrightarrow> (\<forall>x \<in> set xs. x = None)"
  by (induction xs rule: first_some.induct) auto

lemma rx_match_cap:
  "rx_match U ic s k pos cap = Some (e, c) \<Longrightarrow> cap \<noteq> None \<or> list_ex has_grp k \<Longrightarrow> c \<noteq> None"
proof (induction U ic s k pos cap arbitrary: e c rule: rx_match.induct)
  case (1 U ic s pos cap)
  then show ?case by auto
next
  case (5 U ic s c' lo hi greedy k pos cap)
  from "5.prems"(1) obtain n where
    n: "n \<in> set (rep_counts (length (takeWhile (cclass_ok U ic c') (drop pos s))) lo hi greedy)"
    and m: "rx_match U ic s k (pos + n) cap = Some (e, c)"
    by (auto dest!: first_some_Some)
  from "5.prems"(2) have "cap \<noteq> None \<or> list_ex has_grp k" by simp
  with "5.IH"[OF n m] show ?case by simp
next
  case (7 U ic s a b k pos cap)
  then show ?case by (auto split: option.splits)
next
  case (12 U ic s a k pos cap)
  then show ?case by (auto split: option.splits)
qed (auto split: if_splits)

lemma search_from_Some:
  "search_from U ic r s p = Some m \<Longrightarrow>
     \<exists>st. p \<le> st \<and> st \<le> length s \<and> match_at U ic r s st = Some m"
proof -
  assume "search_from U ic r s p = Some m"
  then have "Some m \<in> set (map (match_at U ic r s) [p ..< Suc (length s)])"
    unfolding search_from_def by (rule first_some_Some)
  then have "\<exists>st \<in> set [p ..< Suc (length s)]. Some m = match_at U ic r s st"
    unfolding set_map image_iff .
  then obtain st where st: "st \<in> set [p ..< Suc (length s)]"
    and m: "Some m = match_at U ic r s st" by blast
  from st have "p \<le> st \<and> st \<le> length s" unfolding set_upt by simp
  with m show ?thesis by auto
qed

lemma match_at_cap:
  "match_at U ic r s st = Some m \<Longrightarrow> has_grp r \<Longrightarrow> \<exists>a b. m_cap m = Some (a, b)"
  unfolding match_at_def
  by (auto split: option.splits dest: rx_match_cap)

lemma re_search_cap:
  "re_search U ic r s = Some m \<Longrightarrow> has_grp r \<Longrightarrow> \<exists>a b. m_cap m = Some (a, b)"
  unfolding re_search_def by (auto dest!: search_from_Some dest: match_at_cap)

lemma group1_strip_ok:
  "re_search U ic r s = Some m \<Longrightarrow> has_grp r \<Longrightarrow> \<exists>v. group1_strip U s m = Inr v"
  by (auto simp: group1_strip_def group1_def dest!: re_search_cap)

lemma has_grp_labelled [simp]: "has_grp (labelled_re labels lo hi)"
  by (simp add: labelled_re_def seq_def)

lemma has_grp_back_patterns: "r \<in> set (back_patterns labels) \<Longrightarrow> has_grp r"
  by (auto simp: back_patterns_def seq_def)

lemma has_grp_sponsor: "r \<in> set family_sponsor_patterns \<Longrightarrow> has_grp r"
  by (auto simp: family_sponsor_patterns_def seq_def sponsor_answer_def)

section \<open>The extractors raise no exception\<close>

lemma name_scan_ok: "\<exists>r. name_scan U lines es = Inr r"
  by (induction es) (auto simp: Let_def list_item_ok)

lemma parse_labelled_name_ok: "\<exists>d. parse_labelled_name U raw data = Inr d"
proof (cases "re_search U True name_re raw")
  case None
  then show ?thesis by (simp add: parse_labelled_name_def)
next
  case (Some m)
  then obtain v where "group1_strip U raw m = Inr v"
    using group1_strip_ok[of U True name_re raw m] by (auto simp: name_re_def)
  with Some show ?thesis by (simp add: parse_labelled_name_def)
qed

lemma parse_fallback_name_ok: "\<exists>d. parse_fallback_name U normalized data = Inr d"
proof -
  obtain r where
    "name_scan U (stripped_lines U normalized) (enumerate 0 (stripped_lines U normalized))
       = Inr r"
    using name_scan_ok by blast
  then show ?thesis by (auto simp: parse_fallback_name_def Let_def split: option.splits)
qed

lemma parse_dates_ok: "\<exists>d. parse_dates U raw data = Inr d"
  by (auto simp: parse_dates_def Let_def list_item_ok list_last_item_ok)

lemma parse_nationality_ok: "\<exists>d. parse_nationality U raw data = Inr d"
proof (cases "re_search U True nationality_re raw")
  case None
  then show ?thesis by (simp add: parse_nationality_def)
next
  case (Some m)
  then obtain v where "group1_strip U raw m = Inr v"
    using group1_strip_ok[of U True nationality_re raw m] by (auto simp: nationality_re_def)
  with Some show ?thesis by (simp add: parse_nationality_def)
qed

lemma address_after_nationality_ok:
  "dict_has data ''nationality'' \<Longrightarrow> \<exists>r. address_after_nationality U data lines es = Inr r"
proof (induction es)
  case Nil
  then show ?case by simp
next
  case (Cons p es)
  obtain idx line where p: "p = (idx, line)" by (cases p)
  from Cons.prems obtain nat where n: "dict_item data ''nationality'' = Inr nat"
    by (auto simp: dict_has_def dict_item_def)
  show ?case using Cons p n by (auto simp: list_item_ok)
qed

lemma parse_address_ok: "\<exists>d. parse_address U raw normalized data = Inr d"
proof (cases "re_search U True address_re raw")
  case (Some m)
  then obtain v where "group1_strip U raw m = Inr v"
    using group1_strip_ok[of U True address_re raw m] by (auto simp: address_re_def)
  with Some show ?thesis by (simp add: parse_address_def)
next
  case None
  show ?thesis
  proof (cases "dict_has data ''nationality''")
    case True
    then obtain r where
      "address_after_nationality U data (stripped_lines U normalized)
         (enumerate 0 (stripped_lines U normalized)) = Inr r"
      using address_after_nationality_ok by blast
    with None True show ?thesis
      by (auto simp: parse_address_def Let_def split: option.splits)
  next
    case False
    with None show ?thesis
      by (auto simp: parse_address_def Let_def split: option.splits)
  qed
qed

lemma parse_fields_ok: "\<exists>d. parse_fields U text = Inr d"
proof -
  obtain d1 where d1: "parse_labelled_name U text (parse_emirates_id U text []) = Inr d1"
    using parse_labelled_name_ok by blast
  obtain d2 where d2: "parse_fallback_name U (py_replace_char 13 10 text) d1 = Inr d2"
    using parse_fallback_name_ok by blast
  obtain d3 where d3: "parse_dates U text d2 = Inr d3"
    using parse_dates_ok by blast
  obtain d4 where d4: "parse_nationality U text d3 = Inr d4"
    using parse_nationality_ok by blast
  obtain d5 where
    d5: "parse_address U text (py_replace_char 13 10 text) (parse_gender U text d4) = Inr d5"
    using parse_address_ok by blast
  show ?thesis by (simp add: parse_fields_def Let_def d1 d2 d3 d4 d5)
qed

lemma back_text_scan_ok:
  "\<forall>r \<in> set patterns. has_grp r \<Longrightarrow> \<exists>r. back_text_scan U raw patterns = Inr r"
proof (induction patterns)
  case Nil
  then show ?case by simp
next
  case (Cons p ps)
  show ?case
  proof (cases "re_search U True p raw")
    case None
    then show ?thesis using Cons by simp
  next
    case (Some m)
    then obtain v where "group1_strip U raw m = Inr v"
      using group1_strip_ok[of U True p raw m] Cons.prems by auto
    with Some Cons show ?thesis by (auto simp: Let_def)
  qed
qed

lemma parse_back_text_ok:
  "\<exists>d. parse_back_text U raw (back_patterns labels) key data = Inr d"
proof -
  obtain r where "back_text_scan U raw (back_patterns labels) = Inr r"
    using back_text_scan_ok[of "back_patterns labels"] has_grp_back_patterns by blast
  then show ?thesis by (auto simp: parse_back_text_def split: option.splits)
qed

lemma sponsor_scan_ok:
  "\<forall>r \<in> set patterns. has_grp r \<Longrightarrow> \<exists>d. sponsor_scan U raw patterns data = Inr d"
proof (induction patterns)
  case Nil
  then show ?case by simp
next
  case (Cons p ps)
  show ?case
  proof (cases "re_search U True p raw")
    case None
    then show ?thesis using Cons by simp
  next
    case (Some m)
    then obtain v where "group1_strip U raw m = Inr v"
      using group1_strip_ok[of U True p raw m] Cons.prems by auto
    with Some show ?thesis by (auto simp: Let_def)
  qed
qed

lemma parse_back_side_fields_ok: "\<exists>d. parse_back_side_fields U text = Inr d"
proof -
  obtain d1 where d1: "parse_back_text U text occupation_patterns ''occupation'' [] = Inr d1"
    unfolding occupation_patterns_def using parse_back_text_ok by blast
  obtain d2 where d2: "parse_back_text U text employer_patterns ''employer'' d1 = Inr d2"
    unfolding employer_patterns_def using parse_back_text_ok by blast
  obtain d3 where
    d3: "parse_back_text U text issuing_place_patterns ''issuing_place'' d2 = Inr d3"
    unfolding issuing_place_patterns_def using parse_back_text_ok by blast
  obtain d4 where d4: "sponsor_scan U text family_sponsor_patterns d3 = Inr d4"
    using sponsor_scan_ok[of family_sponsor_patterns] has_grp_sponsor by blast
  show ?thesis by (simp add: parse_back_side_fields_def Let_def d1 d2 d3 d4)
qed

lemma parse_fields_empty: "parse_fields U [] = Inr []"
  by (simp add: parse_fields_def parse_emirates_id_def parse_labelled_name_def re_search_def
      search_from_def match_at_def id_re_def seq_def name_re_def labelled_re_def lit_def
      chars_def digits_def rep_counts_def parse_fallback_name_def dict_has_def
      py_replace_char_def stripped_lines_def py_splitlines_def parse_dates_def Let_def
      re_findall_group_def re_finditer.simps date_pattern_def dob_labels_def issuing_labels_def
      expiry_labels_def labelled_date_re_def set_date_def truthy_def parse_nationality_def
      nationality_re_def parse_gender_def gender_patterns_def gender_labels_def
      set_gender_def parse_address_def address_re_def word_boundary_def spaces_def)

lemma parse_back_side_fields_empty: "parse_back_side_fields U [] = Inr []"
  by (simp add: parse_back_side_fields_def parse_back_text_def occupation_patterns_def
      employer_patterns_def issuing_place_patterns_def back_patterns_def labelled_re_def
      family_sponsor_patterns_def sponsor_labels_def seq_def chars_def lit_def re_search_def
      search_from_def match_at_def)

text \<open>
  Claim C9. For every input string, the empty string included, the front side extractor
  and the back side extractor return a field dictionary and raise no exception: every
  attribute access on a group, every index into a list and every key lookup of the two
  functions succeeds, and the matcher, the scans and the loops are total functions. On
  the empty string both dictionaries are empty: a field that does not match is left out.
\<close>

theorem C9_extractors_never_raise:
  "(\<exists>d. parse_fields U text = Inr d) \<and> (\<exists>d. parse_back_side_fields U text = Inr d)
   \<and> parse_fields U [] = Inr [] \<and> parse_back_side_fields U [] = Inr []"
  using parse_fields_ok parse_back_side_fields_ok parse_fields_empty
    parse_back_side_fields_empty by blast

theorem C9_extractors_never_raise_witness:
  "(\<exists>d. parse_fields latin_arabic (lit ''Name: Sara Ali'') = Inr d)
   \<and> (\<exists>d. parse_back_side_fields latin_arabic (lit ''Employer: -'') = Inr d)"
  using C9_extractors_never_raise [of latin_arabic "lit ''Name: Sara Ali''"]
    C9_extractors_never_raise [of latin_arabic "lit ''Employer: -''"]
  by blast

section \<open>The side classifier\<close>

lemma indicator_score_length:
  "indicator_score indicators t = length (filter (\<lambda>k. py_in k t) indicators)"
  unfolding indicator_score_def by (induction indicators) auto




lemma filter_only:
  assumes "set (filter P xs) = {a}"
  shows "filter P xs = filter (\<lambda>k. k = a) xs"
proof (rule filter_cong[OF refl])
  fix k assume k: "k \<in> set xs"
  show "P k = (k = a)"
  proof
    assume "P k"
    with k have "k \<in> set (filter P xs)" by simp
    with assms show "k = a" by simp
  next
    assume "k = a"
    moreover from assms have "a \<in> set (filter P xs)" by simp
    ultimately show "P k" by simp
  qed
qed

lemma distinct_front_indicators: "distinct front_indicators"
  by (simp add: front_indicators_def lit_def)

text \<open>
  Claim C10. The score of a side counts every entry of its keyword list once when the
  entry occurs in the lower-cased text, however often it occurs there. The back list
  holds "employer" twice, so a text that contains "employer" has a back score of two
  plus the score of the other entries; a text whose only back keyword is "employer" and
  which has exactly one front keyword (such as "name") is therefore classified as back.
\<close>

theorem C10_duplicate_entries_count_twice:
  "indicator_score indicators t = length (filter (\<lambda>k. py_in k t) indicators)
   \<and> (py_in (lit ''employer'') (u_lower U text)
        \<longrightarrow> indicator_score back_indicators (u_lower U text)
            = 2 + indicator_score (removeAll (lit ''employer'') back_indicators)
                    (u_lower U text))
   \<and> (set (filter (\<lambda>k. py_in k (u_lower U text)) back_indicators) = {lit ''employer''}
        \<and> set (filter (\<lambda>k. py_in k (u_lower U text)) front_indicators) = {kf}
        \<longrightarrow> detect_document_side U text = Back)"
proof (intro conjI impI)
  show "indicator_score indicators t = length (filter (\<lambda>k. py_in k t) indicators)"
    by (rule indicator_score_length)
next
  assume "py_in (lit ''employer'') (u_lower U text)"
  then show "indicator_score back_indicators (u_lower U text)
      = 2 + indicator_score (removeAll (lit ''employer'') back_indicators) (u_lower U text)"
    by (simp add: indicator_score_def back_indicators_def lit_def)
next
  assume a: "set (filter (\<lambda>k. py_in k (u_lower U text)) back_indicators) = {lit ''employer''}
        \<and> set (filter (\<lambda>k. py_in k (u_lower U text)) front_indicators) = {kf}"
  then have "filter (\<lambda>k. py_in k (u_lower U text)) back_indicators
      = filter (\<lambda>k. k = lit ''employer'') back_indicators"
    by (intro filter_only) simp
  then have bscore: "indicator_score back_indicators (u_lower U text) = 2"
    by (simp add: indicator_score_length back_indicators_def lit_def)
  have "distinct (filter (\<lambda>k. py_in k (u_lower U text)) front_indicators)"
    using distinct_front_indicators by simp
  then have "length (filter (\<lambda>k. py_in k (u_lower U text)) front_indicators)
      = card (set (filter (\<lambda>k. py_in k (u_lower U text)) front_indicators))"
    by (simp only: distinct_card)
  with a have fscore: "indicator_score front_indicators (u_lower U text) = 1"
    by (simp add: indicator_score_length)
  from bscore fscore show "detect_document_side U text = Back"
    by (simp add: detect_document_side_def)
qed

theorem C10_duplicate_entries_count_twice_witness:
  "set (filter (\<lambda>k. py_in k (u_lower latin_arabic (lit ''Employer Name''))) back_indicators)
     = {lit ''employer''}
   \<and> set (filter (\<lambda>k. py_in k (u_lower latin_arabic (lit ''Employer Name''))) front_indicators)
     = {lit ''name''}
   \<and> detect_document_side latin_arabic (lit ''Employer Name'') = Back"
proof -
  have low: "u_lower latin_arabic (lit ''Employer Name'') = lit ''employer name''"
    by (simp add: latin_arabic_def lit_def la_lower_cp_def la_upper_letter_def)
  have hyp: "set (filter (\<lambda>k. py_in k (u_lower latin_arabic (lit ''Employer Name'')))
                 back_indicators) = {lit ''employer''}
     \<and> set (filter (\<lambda>k. py_in k (u_lower latin_arabic (lit ''Employer Name'')))
                 front_indicators) = {lit ''name''}"
    unfolding low by (simp add: lit_def back_indicators_def front_indicators_def)
  show ?thesis
    using C10_duplicate_entries_count_twice
      [of "[]" "[]" latin_arabic "lit ''Employer Name''" "lit ''name''"]
      hyp by blast
qed

section \<open>The recommendation tables\<close>

text \<open>
  Claim C1. For every place and every salary band, an unrecognised place and an unknown
  band included, the table of the helper returns either a non-empty product list and no
  message, or no product and a message; the table written out in the upload handler
  does the same.
\<close>

theorem C1_products_or_message:
  "((fst (build_products place salary_key) \<noteq> [] \<and> snd (build_products place salary_key) = None)
    \<or> (fst (build_products place salary_key) = []
        \<and> snd (build_products place salary_key) \<noteq> None))
   \<and> ((fst (upload_products place salary_key) \<noteq> []
        \<and> snd (upload_products place salary_key) = None)
       \<or> (fst (upload_products place salary_key) = []
           \<and> snd (upload_products place salary_key) \<noteq> None))"
  by (simp add: build_products_def upload_products_def)

theorem C1_products_or_message_witness:
  "fst (build_products None None) = [] \<and> snd (build_products None None) \<noteq> None
   \<and> fst (upload_products (Some (lit ''Dubai'')) None) \<noteq> []
   \<and> snd (upload_products (Some (lit ''Dubai'')) None) = None"
  using C1_products_or_message [of None None]
    C1_products_or_message [of "Some (lit ''Dubai'')" None]
  by (simp add: build_products_def upload_products_def)

section \<open>The combined texts\<close>

lemma join_nonempty: "x \<in> set xs \<Longrightarrow> x \<noteq> [] \<Longrightarrow> py_join sep xs \<noteq> []"
  by (induction sep xs rule: py_join.induct) auto

lemma combine_texts_eq:
  "combine_texts ft bt =
     (let F = (if ft \<noteq> [] then py_join (lit '' '') ft else []);
          B = (if bt \<noteq> [] then py_join (lit '' '') bt else [])
      in (if F = [] then B else F, B))"
  by (auto simp add: combine_texts_def Let_def)

lemma front_combined_nonempty:
  assumes "f \<in> set pfs" "pf_text f \<noteq> []"
  shows "fst (combine_texts (front_texts_of pfs) (back_texts_of pfs)) \<noteq> []"
proof (cases "pf_side f = Back")
  case True
  then have "pf_text f \<in> set (back_texts_of pfs)"
    using assms by (auto simp: back_texts_of_def)
  then have "py_join (lit '' '') (back_texts_of pfs) \<noteq> []" "back_texts_of pfs \<noteq> []"
    using assms join_nonempty by auto
  then show ?thesis by (auto simp: combine_texts_eq Let_def)
next
  case False
  then have "pf_side f = Front \<or> pf_side f = Unknown" by (cases "pf_side f") auto
  then have "pf_text f \<in> set (front_texts_of pfs)"
    using assms by (auto simp: front_texts_of_def)
  then have "py_join (lit '' '') (front_texts_of pfs) \<noteq> []" "front_texts_of pfs \<noteq> []"
    using assms join_nonempty by auto
  then show ?thesis by (auto simp: combine_texts_eq Let_def)
qed

text \<open>
  Claim C3, as the code has it. The texts classified front or unknown are joined with
  spaces into the front text, the texts classified back into the back text. An empty
  front text takes the back text; the back text is never replaced, so an empty back text
  stays empty. The front extractor therefore runs on a non-empty text whenever a file
  yielded text.
\<close>

theorem C3_front_borrows_back_only:
  "combine_texts (front_texts_of pfs) (back_texts_of pfs) =
     (let F = (if front_texts_of pfs \<noteq> [] then py_join (lit '' '') (front_texts_of pfs) else []);
          B = (if back_texts_of pfs \<noteq> [] then py_join (lit '' '') (back_texts_of pfs) else [])
      in (if F = [] then B else F, B))
   \<and> ((\<exists>f \<in> set pfs. pf_text f \<noteq> [])
        \<longrightarrow> fst (combine_texts (front_texts_of pfs) (back_texts_of pfs)) \<noteq> [])"
  using combine_texts_eq front_combined_nonempty by blast

theorem C3_front_borrows_back_only_witness:
  "(\<exists>f \<in> set [\<lparr>pf_name = lit ''b.jpg'', pf_text = lit ''Employer: ACME'', pf_side = Back,
                pf_is_pdf = False\<rparr>]. pf_text f \<noteq> [])
   \<and> fst (combine_texts
         (front_texts_of [\<lparr>pf_name = lit ''b.jpg'', pf_text = lit ''Employer: ACME'',
                           pf_side = Back, pf_is_pdf = False\<rparr>])
         (back_texts_of [\<lparr>pf_name = lit ''b.jpg'', pf_text = lit ''Employer: ACME'',
                          pf_side = Back, pf_is_pdf = False\<rparr>])) \<noteq> []"
proof -
  have hyp: "\<exists>f \<in> set [\<lparr>pf_name = lit ''b.jpg'', pf_text = lit ''Employer: ACME'',
                         pf_side = Back, pf_is_pdf = False\<rparr>]. pf_text f \<noteq> []"
    by (simp add: lit_def)
  show ?thesis
    using C3_front_borrows_back_only
      [of "[\<lparr>pf_name = lit ''b.jpg'', pf_text = lit ''Employer: ACME'', pf_side = Back,
             pf_is_pdf = False\<rparr>]"] hyp by blast
qed

text \<open>
  The claim as the specification states it fails in the second direction: for one file
  whose text is classified front, the front text is that text and the back text stays
  empty, although exactly one of the two is empty.
\<close>

theorem C3_back_stays_empty_counterexample:
  "detect_document_side latin_arabic (lit ''Name: Sara Ali'') = Front
   \<and> combine_texts
        (front_texts_of [\<lparr>pf_name = lit ''f.jpg'', pf_text = lit ''Name: Sara Ali'',
                          pf_side = Front, pf_is_pdf = False\<rparr>])
        (back_texts_of [\<lparr>pf_name = lit ''f.jpg'', pf_text = lit ''Name: Sara Ali'',
                         pf_side = Front, pf_is_pdf = False\<rparr>])
       = (lit ''Name: Sara Ali'', [])"
  by (simp add: front_texts_of_def back_texts_of_def combine_texts_def lit_def
      detect_document_side_def indicator_score_def back_indicators_def front_indicators_def
      latin_arabic_def la_lower_cp_def la_upper_letter_def)

section \<open>The salary band\<close>

lemma first_some_map_Some:
  "first_some (map (\<lambda>n. Some (f n)) xs) = (case xs of [] \<Rightarrow> None | x # _ \<Rightarrow> Some (f x))"
  by (cases xs) auto

lemma rep_counts_greedy_unbounded:
  "rep_counts a (Suc 0) None True = (if a = 0 then [] else a # rev [Suc 0 ..< a])"
  by (auto simp: rep_counts_def)

lemma match_at_number:
  "match_at U False number_re s st =
     (let a = length (takeWhile (\<lambda>c. u_decimal U c \<noteq> None) (drop st s))
      in if a = 0 then None else Some \<lparr> m_start = st, m_end = st + a, m_cap = None \<rparr>)"
proof -
  have cls: "cclass_ok U False (In [Dig]) = (\<lambda>c. u_decimal U c \<noteq> None)"
    by (rule ext) simp
  show ?thesis
    unfolding match_at_def number_re_def
    by (simp add: cls rep_counts_greedy_unbounded Let_def del: upt_Suc)
qed

lemma int_from_ok:
  "list_all (\<lambda>c. u_decimal U c \<noteq> None) ds \<Longrightarrow> \<exists>n. int_from U acc ds = Inr n"
  by (induction ds arbitrary: acc) auto

lemma finditer_matches:
  "m \<in> set (re_finditer U ic r s pos) \<Longrightarrow> \<exists>st. match_at U ic r s st = Some m"
proof (induction U ic r s pos rule: re_finditer.induct)
  case (1 U ic r s pos)
  show ?case
  proof (cases "length s < pos")
    case True
    with "1.prems" show ?thesis by (subst (asm) re_finditer.simps) simp
  next
    case False
    show ?thesis
    proof (cases "search_from U ic r s pos")
      case None
      with False "1.prems" show ?thesis by (subst (asm) re_finditer.simps) simp
    next
      case (Some m0)
      from "1.prems" False Some have
        "m = m0 \<or> m \<in> set (re_finditer U ic r s
            (max (Suc pos) (if m_end m0 = m_start m0 then Suc (m_end m0) else m_end m0)))"
        by (subst (asm) re_finditer.simps) simp
      then show ?thesis
      proof
        assume "m = m0"
        with Some search_from_Some show ?thesis by blast
      next
        assume "m \<in> set (re_finditer U ic r s
            (max (Suc pos) (if m_end m0 = m_start m0 then Suc (m_end m0) else m_end m0)))"
        with "1.IH"[OF False Some] show ?thesis by blast
      qed
    qed
  qed
qed

lemma number_group0_ok:
  assumes "match_at U False number_re s st = Some m"
  shows "\<exists>n. py_int U (group0 s m) = Inr n"
proof -
  let ?P = "\<lambda>c. u_decimal U c \<noteq> None"
  let ?ds = "takeWhile ?P (drop st s)"
  from assms have a: "length ?ds \<noteq> 0"
    by (simp add: match_at_number Let_def split: if_splits)
  from assms have m: "m = \<lparr> m_start = st, m_end = st + length ?ds, m_cap = None \<rparr>"
    by (simp add: match_at_number Let_def split: if_splits)
  have "take (length ?ds) (drop st s) = ?ds"
    by (rule takeWhile_eq_take[symmetric])
  then have g: "group0 s m = ?ds" by (simp add: group0_def slice_def m)
  have "\<forall>c \<in> set ?ds. ?P c" using set_takeWhileD[of _ ?P "drop st s"] by blast
  then have "list_all ?P ?ds" by (simp only: list_all_iff)
  then obtain n where "int_from U 0 ?ds = Inr n" using int_from_ok by blast
  moreover from a have "?ds \<noteq> []" by simp
  ultimately show ?thesis unfolding g py_int_def by simp
qed

lemma map_raising_ok:
  "(\<And>x. x \<in> set xs \<Longrightarrow> \<exists>y. f x = Inr y) \<Longrightarrow>
     \<exists>ys. map_raising f xs = Inr ys \<and> length ys = length xs"
proof (induction xs)
  case Nil
  then show ?case by simp
next
  case (Cons x xs)
  have "\<exists>y. f x = Inr y" by (rule Cons.prems) simp
  then obtain y where y: "f x = Inr y" ..
  have "\<exists>ys. map_raising f xs = Inr ys \<and> length ys = length xs"
  proof (rule Cons.IH)
    fix x' assume "x' \<in> set xs"
    then show "\<exists>y. f x' = Inr y" by (intro Cons.prems) simp
  qed
  then obtain ys where "map_raising f xs = Inr ys" "length ys = length xs" by blast
  with y show ?case by simp
qed

lemma salary_by_number_ok: "\<exists>k. salary_by_number U s = Inr k"
proof -
  let ?digits = "re_findall U False number_re s"
  have each: "\<exists>n. py_int U d = Inr n" if "d \<in> set ?digits" for d
  proof -
    from that obtain m where "m \<in> set (re_finditer U False number_re s 0)" "d = group0 s m"
      unfolding re_findall_def by auto
    moreover then obtain st where "match_at U False number_re s st = Some m"
      using finditer_matches by blast
    ultimately show ?thesis using number_group0_ok by blast
  qed
  obtain nums where nums: "map_raising (py_int U) ?digits = Inr nums"
      and len: "length nums = length ?digits"
    using map_raising_ok[of ?digits "py_int U", OF each] by blast
  show ?thesis
  proof (cases "?digits = []")
    case True
    then show ?thesis by (simp add: salary_by_number_def)
  next
    case False
    with len have "0 < length nums" by simp
    then have "list_item nums 0 = Inr (nums ! 0)" by (rule list_item_ok)
    with False nums show ?thesis by (simp add: salary_by_number_def Let_def)
  qed
qed

lemma normalize_salary_ok: "\<exists>k. normalize_salary U s = Inr k"
  using salary_by_number_ok[of U s] by (auto simp: normalize_salary_def Let_def)

lemma build_products_cases:
  "build_products place k = (products, message) \<Longrightarrow>
     (products \<noteq> [] \<and> message = None) \<or> (products = [] \<and> message \<noteq> None)"
  by (auto simp: build_products_def split: if_splits)

lemma compute_products_ok:
  "\<exists>products message. compute_products_based_on_data U session record = Inr (products, message)
     \<and> ((products \<noteq> [] \<and> message = None) \<or> (products = [] \<and> message \<noteq> None))"
proof -
  let ?sal = "case session of None \<Rightarrow> [] | Some s \<Rightarrow> u_lower U (or_empty (s_salary s))"
  let ?place = "normalize_place U (case record of None \<Rightarrow> [] | Some r \<Rightarrow> or_empty (r_issuing_place r))"
  obtain k where k: "normalize_salary U ?sal = Inr k"
    using normalize_salary_ok by blast
  obtain products message where pm: "build_products ?place k = (products, message)"
    by (cases "build_products ?place k")
  have "compute_products_based_on_data U session record = Inr (products, message)"
    unfolding compute_products_based_on_data_def Let_def by (simp add: k pm)
  with build_products_cases[OF pm] show ?thesis by blast
qed






lemma first_some_map_none:
  "(\<forall>j \<in> set xs. f j = None) \<Longrightarrow> first_some (map f xs) = None"
  by (simp add: first_some_None)








section \<open>The parts of the handler\<close>

lemma assign_url_lsb:
  "assign_url (product3 ''DHA-Basic'' ''1893.00'' ''LSB'') = Inr dha_lsb"
  by (simp add: assign_url_def product3_def dict_item_def dha_lsb_def product4_def)

lemma assign_url_nlsb:
  "assign_url (product3 ''DHA-Basic'' ''864.00'' ''NLSB'') = Inr dha_nlsb"
  by (simp add: assign_url_def product3_def dict_item_def dha_nlsb_def product4_def)

lemma assign_url_abu_dhabi:
  "assign_url (product3 ''Abu Dhabi Eligible Plan'' ''1350.00 AED'' ''Premium'')
     = Inr (product4 ''Abu Dhabi Eligible Plan'' ''1350.00 AED'' ''Premium''
              ''https://gia-insurance-provider.com/abu-dhabi-premium'')"
  by (simp add: assign_url_def product3_def dict_item_def product4_def)

lemma assign_url_general:
  "assign_url (product3 ''General Plan (Eligible)'' ''999.00 AED'' ''Standard'')
     = Inr (product4 ''General Plan (Eligible)'' ''999.00 AED'' ''Standard''
              ''https://gia-insurance-provider.com/general-plan'')"
  by (simp add: assign_url_def product3_def dict_item_def product4_def)

lemma upload_products_urls:
  "\<exists>ps. map_raising assign_url (fst (upload_products place key)) = Inr ps"
  by (simp add: upload_products_def assign_url_lsb assign_url_nlsb assign_url_abu_dhabi
      assign_url_general)

lemma find_family_sponsor_name_ok:
  "\<exists>n. find_family_sponsor_name U back_data back_combined = Inr n"
proof (cases "re_search U True sponsor_name_re back_combined")
  case None
  then show ?thesis by (simp add: find_family_sponsor_name_def)
next
  case (Some m)
  then obtain v where "group1_strip U back_combined m = Inr v"
    using group1_strip_ok[of U True sponsor_name_re back_combined m]
    by (auto simp: sponsor_name_re_def)
  with Some show ?thesis by (simp add: find_family_sponsor_name_def)
qed

lemma s_salary_sync [simp]: "s_salary (sync_session record session) = s_salary session"
  by (simp add: sync_session_def)

lemma upload_body_unfold:
  assumes comb: "combine_texts (front_texts_of pfs) (back_texts_of pfs) = (fc, bc)"
    and fd: "parse_fields U fc = Inr fd"
    and bd: "parse_back_side_fields U bc = Inr bd"
    and fsn: "find_family_sponsor_name U bd bc = Inr fsn"
  shows "\<exists>l. upload_body U session existing pfs = Inr l
      \<and> l_front_data l = fd \<and> l_back_data l = bd \<and> l_family_sponsor_name l = fsn
      \<and> l_record l = (case existing of None \<Rightarrow> create_record fd bd fsn
                       | Some r \<Rightarrow> update_record r fd bd fsn)
      \<and> l_missing l = missing_fields (l_record l)
      \<and> s_salary (l_session l) = s_salary session"
  unfolding upload_body_def
  by (simp add: comb fd bd fsn Let_def)

lemma upload_body_ok: "\<exists>l. upload_body U session existing pfs = Inr l"
proof -
  obtain fc bc where comb: "combine_texts (front_texts_of pfs) (back_texts_of pfs) = (fc, bc)"
    by (cases "combine_texts (front_texts_of pfs) (back_texts_of pfs)")
  obtain fd where fd: "parse_fields U fc = Inr fd" using parse_fields_ok by blast
  obtain bd where bd: "parse_back_side_fields U bc = Inr bd"
    using parse_back_side_fields_ok by blast
  obtain fsn where fsn: "find_family_sponsor_name U bd bc = Inr fsn"
    using find_family_sponsor_name_ok by blast
  from upload_body_unfold[OF comb fd bd fsn] show ?thesis by blast
qed

lemma upload_recommend_unfold:
  assumes "normalize_salary U (u_lower U (or_empty (s_salary (l_session l)))) = Inr key"
  shows "upload_recommend U l
     = Inr (normalize_place U (or_empty (r_issuing_place (l_record l))),
            upload_products (normalize_place U (or_empty (r_issuing_place (l_record l)))) key)"
proof -
  obtain r where "compute_products_based_on_data U (Some (l_session l)) (Some (l_record l)) = Inr r"
    using compute_products_ok by blast
  then show ?thesis
    by (simp add: upload_recommend_def Let_def assms split: prod.splits)
qed

lemma upload_recommend_ok: "\<exists>r. upload_recommend U l = Inr r"
proof -
  obtain key where "normalize_salary U (u_lower U (or_empty (s_salary (l_session l)))) = Inr key"
    using normalize_salary_ok by blast
  from upload_recommend_unfold[OF this] show ?thesis by blast
qed

lemma upload_respond_raises: "upload_respond l place products message = Inl AttributeError"
  by (simp add: upload_respond_def session_mobile_def)

lemma upload_raises:
  assumes "files \<noteq> []" "process_files U files = Inr pfs"
  shows "emirates_id_upload U session existing files = Inl AttributeError"
proof -
  obtain l where l: "upload_body U session existing pfs = Inr l"
    using upload_body_ok by blast
  obtain r where r: "upload_recommend U l = Inr r"
    using upload_recommend_ok by blast
  show ?thesis
    using assms
    by (simp add: emirates_id_upload_def l r upload_respond_raises split: prod.splits)
qed

section \<open>The keys of the extracted dictionaries\<close>

lemma dict_set_keys: "fst ` set (dict_set d k v) = insert k (fst ` set d)"
  by (induction d k v rule: dict_set.induct) auto

lemma dict_set_distinct: "distinct (map fst d) \<Longrightarrow> distinct (map fst (dict_set d k v))"
  by (induction d k v rule: dict_set.induct) (auto simp: dict_set_keys)

lemma map_of_dict_set_apply:
  "map_of (dict_set d k v) k' = (if k' = k then Some v else map_of d k')"
  by (induction d k v rule: dict_set.induct) auto

lemma map_of_dict_set: "map_of (dict_set d k v) = (map_of d)(k \<mapsto> v)"
  by (rule ext) (simp add: map_of_dict_set_apply)

lemma grows_refl [simp]: "grows K d d"
  by (simp add: grows_def)

lemma grows_trans: "grows K a b \<Longrightarrow> grows K b c \<Longrightarrow> grows K a c"
  by (simp add: grows_def)

lemma grows_set: "k \<in> K \<Longrightarrow> grows K d (dict_set d k v)"
  by (auto simp: grows_def dict_set_distinct map_of_dict_set)

lemma grows_set2: "grows K a b \<Longrightarrow> k \<in> K \<Longrightarrow> grows K a (dict_set b k v)"
  by (erule grows_trans) (rule grows_set)

lemma grows_labelled_name:
  "parse_labelled_name U raw data = Inr d \<Longrightarrow> grows front_keys data d"
  by (auto simp: parse_labelled_name_def and_then_def front_keys_def
      split: option.splits sum.splits intro!: grows_set)

lemma grows_fallback_name:
  "parse_fallback_name U normalized data = Inr d \<Longrightarrow> grows front_keys data d"
  by (auto simp: parse_fallback_name_def and_then_def front_keys_def Let_def
      split: option.splits sum.splits if_splits intro!: grows_set)

lemma grows_set_date: "key \<in> K \<Longrightarrow> grows K data (set_date U key v data)"
  by (auto simp: set_date_def split: option.splits intro!: grows_set)

lemma grows_dates:
  assumes "parse_dates U raw data = Inr d"
  shows "grows front_keys data d"
proof -
  let ?d1 = "set_date U ''dob'' (find_date_by_labels U raw dob_labels) data"
  let ?d2 = "set_date U ''issuing_date'' (find_date_by_labels U raw issuing_labels) ?d1"
  let ?d3 = "set_date U ''expiry_date'' (find_date_by_labels U raw expiry_labels) ?d2"
  have g3: "grows front_keys data ?d3"
    by (intro grows_trans[OF grows_set_date grows_trans[OF grows_set_date grows_set_date]])
       (simp_all add: front_keys_def)
  from assms obtain d4 where d4: "d4 = ?d3 \<or> (\<exists>v. d4 = dict_set ?d3 ''expiry_date'' v)"
    and d: "d = d4 \<or> (\<exists>v. d = dict_set d4 ''issuing_date'' v)"
    by (auto simp: parse_dates_def Let_def and_then_def split: if_splits sum.splits)
  from d4 g3 have "grows front_keys data d4"
    by (auto intro!: grows_set2 simp: front_keys_def)
  with d show ?thesis
    by (auto intro!: grows_set2 simp: front_keys_def)
qed

lemma grows_nationality:
  "parse_nationality U raw data = Inr d \<Longrightarrow> grows front_keys data d"
  by (auto simp: parse_nationality_def and_then_def front_keys_def
      split: option.splits sum.splits intro!: grows_set)

lemma grows_gender: "grows front_keys data (parse_gender U raw data)"
  by (auto simp: parse_gender_def set_gender_def Let_def front_keys_def
      split: option.splits intro!: grows_set2 grows_set)

lemma grows_address:
  "parse_address U raw normalized data = Inr d \<Longrightarrow> grows front_keys data d"
  by (auto simp: parse_address_def and_then_def front_keys_def Let_def dict_has_def
      split: option.splits sum.splits if_splits intro!: grows_set2 grows_set)

lemma grows_emirates_id: "grows {''emirates_id''} [] (parse_emirates_id U raw [])"
  by (simp add: parse_emirates_id_def grows_def split: option.splits)

lemma parse_fields_data:
  assumes "parse_fields U text = Inr d"
  shows "\<exists>data. d = map (\<lambda>(k, v). (k, clean_value U v)) data
      \<and> grows front_keys (parse_emirates_id U text []) data"
proof -
  let ?n = "py_replace_char 13 10 text"
  let ?d0 = "parse_emirates_id U text []"
  obtain d1 where d1: "parse_labelled_name U text ?d0 = Inr d1"
    using parse_labelled_name_ok by blast
  obtain d2 where d2: "parse_fallback_name U ?n d1 = Inr d2"
    using parse_fallback_name_ok by blast
  obtain d3 where d3: "parse_dates U text d2 = Inr d3"
    using parse_dates_ok by blast
  obtain d4 where d4: "parse_nationality U text d3 = Inr d4"
    using parse_nationality_ok by blast
  obtain d5 where d5: "parse_address U text ?n (parse_gender U text d4) = Inr d5"
    using parse_address_ok by blast
  have "grows front_keys ?d0 d5"
    using grows_labelled_name[OF d1] grows_fallback_name[OF d2] grows_dates[OF d3]
      grows_nationality[OF d4] grows_gender[of d4 U "text"] grows_address[OF d5]
    by (meson grows_trans)
  moreover from assms have "d = map (\<lambda>(k, v). (k, clean_value U v)) d5"
    by (simp add: parse_fields_def Let_def d1 d2 d3 d4 d5)
  ultimately show ?thesis by blast
qed

lemma map_values_keys: "map fst (map (\<lambda>(k, v). (k, f v)) d) = map fst d"
  by (induction d) auto

lemma map_of_map_values:
  "map_of (map (\<lambda>(k, v). (k, f v)) d) k = map_option f (map_of d k)"
  by (induction d) auto

lemma parse_fields_distinct:
  assumes "parse_fields U text = Inr d"
  shows "distinct (map fst d)"
proof -
  from parse_fields_data[OF assms] obtain data where
    d: "d = map (\<lambda>(k, v). (k, clean_value U v)) data"
    and g: "grows front_keys (parse_emirates_id U text []) data" by blast
  have "distinct (map fst (parse_emirates_id U text []))"
    using grows_emirates_id[of U "text"] by (simp add: grows_def)
  with g have "distinct (map fst data)" by (simp add: grows_def)
  then show ?thesis by (simp only: d map_values_keys)
qed

lemma parse_fields_no_key:
  assumes "parse_fields U text = Inr d" "k \<notin> front_keys" "k \<noteq> ''emirates_id''"
  shows "map_of d k = None"
proof -
  from parse_fields_data[OF assms(1)] obtain data where
    d: "d = map (\<lambda>(k, v). (k, clean_value U v)) data"
    and g: "grows front_keys (parse_emirates_id U text []) data" by blast
  from g assms(2) have "map_of data k = map_of (parse_emirates_id U text []) k"
    by (simp add: grows_def)
  also from assms(3) have "\<dots> = None"
    using grows_emirates_id[of U "text"] by (simp add: grows_def)
  finally show ?thesis by (simp add: d map_of_map_values)
qed

lemma grows_back_text:
  "parse_back_text U raw patterns key data = Inr d \<Longrightarrow> key \<in> K \<Longrightarrow> grows K data d"
  by (auto simp: parse_back_text_def and_then_def split: sum.splits option.splits
      intro!: grows_set)

lemma grows_sponsor_scan:
  "sponsor_scan U raw patterns data = Inr d \<Longrightarrow> grows back_keys data d"
proof (induction patterns)
  case Nil
  then show ?case by simp
next
  case (Cons p ps)
  then show ?case
    by (auto simp: and_then_def Let_def back_keys_def
        split: option.splits sum.splits if_splits intro!: grows_set)
qed

lemma parse_back_side_fields_grows:
  assumes "parse_back_side_fields U text = Inr d"
  shows "grows back_keys [] d"
proof -
  obtain d1 where d1: "parse_back_text U text occupation_patterns ''occupation'' [] = Inr d1"
    unfolding occupation_patterns_def using parse_back_text_ok by blast
  obtain d2 where d2: "parse_back_text U text employer_patterns ''employer'' d1 = Inr d2"
    unfolding employer_patterns_def using parse_back_text_ok by blast
  obtain d3 where
    d3: "parse_back_text U text issuing_place_patterns ''issuing_place'' d2 = Inr d3"
    unfolding issuing_place_patterns_def using parse_back_text_ok by blast
  from assms have d4: "sponsor_scan U text family_sponsor_patterns d3 = Inr d"
    by (simp add: parse_back_side_fields_def Let_def d1 d2 d3)
  have "grows back_keys [] d1" "grows back_keys d1 d2" "grows back_keys d2 d3"
    using grows_back_text[OF d1] grows_back_text[OF d2] grows_back_text[OF d3]
    by (simp_all add: back_keys_def)
  with grows_sponsor_scan[OF d4] show ?thesis by (meson grows_trans)
qed

lemma dict_merge_distinct: "distinct (map fst a) \<Longrightarrow> distinct (map fst (dict_merge a b))"
  unfolding dict_merge_def
  by (induction b arbitrary: a) (auto simp: dict_set_distinct)

lemma dict_merge_None:
  "map_of a k = None \<Longrightarrow> map_of b k = None \<Longrightarrow> map_of (dict_merge a b) k = None"
  unfolding dict_merge_def
proof (induction b arbitrary: a)
  case Nil
  then show ?case by simp
next
  case (Cons x b)
  obtain k' v' where x: "x = (k', v')" by (cases x)
  with Cons.prems have "k' \<noteq> k" "map_of b k = None" by (auto split: if_splits)
  moreover from this Cons.prems have "map_of (dict_set a k' v') k = None"
    by (simp add: map_of_dict_set_apply)
  ultimately show ?case using Cons.IH x by simp
qed

lemma getattr_setattr:
  "k \<in> set record_fields \<Longrightarrow>
     rec_getattr (rec_setattr r k v) f = (if f = k then Some v else rec_getattr r f)"
  unfolding record_fields_def set_simps insert_iff empty_iff
  by (elim disjE FalseE) (simp_all add: rec_getattr_def rec_setattr_def)

lemma update_loop_getattr:
  "distinct (map fst items) \<Longrightarrow>
     rec_getattr (update_loop r items) f
       = (if rec_hasattr f \<and> truthy (map_of items f) then map_of items f else rec_getattr r f)"
proof (induction items arbitrary: r)
  case Nil
  then show ?case by (simp add: truthy_def)
next
  case (Cons x items)
  obtain k v where x: "x = (k, v)" by (cases x)
  from Cons.prems x have nk: "map_of items k = None" and dist: "distinct (map fst items)"
    by (auto simp: map_of_eq_None_iff)
  show ?case
  proof (cases "rec_hasattr k \<and> v \<noteq> []")
    case True
    then have k: "k \<in> set record_fields" by (simp add: rec_hasattr_def)
    show ?thesis
      using True nk Cons.IH[OF dist, of "rec_setattr r k v"]
      by (auto simp: x getattr_setattr[OF k] truthy_def)
  next
    case False
    then show ?thesis
      using nk Cons.IH[OF dist, of r]
      by (auto simp: x truthy_def)
  qed
qed

lemma dict_merge_map_add:
  "distinct (map fst b) \<Longrightarrow> map_of (dict_merge a b) = map_of a ++ map_of b"
  unfolding dict_merge_def
proof (induction b arbitrary: a)
  case Nil
  then show ?case by simp
next
  case (Cons x b)
  obtain k v where x: "x = (k, v)" by (cases x)
  from Cons.prems x have nk: "map_of b k = None" and dist: "distinct (map fst b)"
    by (auto simp: map_of_eq_None_iff)
  have step: "foldl (\<lambda>d (k, v). dict_set d k v) a (x # b)
      = foldl (\<lambda>d (k, v). dict_set d k v) (dict_set a k v) b"
    by (simp add: x)
  have e: "map_of (dict_set a k v) ++ map_of b = map_of a ++ map_of (x # b)"
  proof (rule ext)
    fix k'
    show "(map_of (dict_set a k v) ++ map_of b) k' = (map_of a ++ map_of (x # b)) k'"
      using nk by (cases "map_of b k'") (auto simp: x map_of_dict_set_apply map_add_def)
  qed
  show ?case by (simp only: step Cons.IH[OF dist] e)
qed

lemma update_record_getattr:
  assumes "distinct (map fst fd)" "distinct (map fst bd)" "f \<in> set record_fields"
    and "map_of fd ''family_sponsor_name'' = None" "map_of bd ''family_sponsor_name'' = None"
  shows "rec_getattr (update_record r fd bd fsn) f
     = (let new = (if f = ''family_sponsor_name'' then fsn else (map_of fd ++ map_of bd) f)
        in if truthy new then new else rec_getattr r f)"
proof -
  let ?m = "dict_merge fd bd"
  have m: "map_of ?m = map_of fd ++ map_of bd"
    using dict_merge_map_add[OF assms(2)] .
  have loop: "rec_getattr (update_loop r ?m) f
      = (if truthy (map_of ?m f) then map_of ?m f else rec_getattr r f)"
    using update_loop_getattr[OF dict_merge_distinct[OF assms(1)], of r bd f] assms(3)
    by (simp add: rec_hasattr_def)
  show ?thesis
  proof (cases "f = ''family_sponsor_name''")
    case True
    from assms(4,5) have "map_of ?m f = None" unfolding m True by (simp add: map_add_def)
    with loop have "rec_getattr (update_loop r ?m) f = rec_getattr r f"
      by (simp add: truthy_def)
    with True show ?thesis
      by (simp add: update_record_def Let_def rec_getattr_def)
  next
    case False
    then have "rec_getattr (update_record r fd bd fsn) f = rec_getattr (update_loop r ?m) f"
      by (simp add: update_record_def Let_def rec_getattr_def)
    with loop False show ?thesis by (simp add: m Let_def)
  qed
qed

section \<open>The merge into the stored record\<close>

text \<open>
  Claim C5. On an upload for a session that has an identity record \<open>r\<close>, the handler
  saves a record of which every field is the newly extracted value when that value is
  non-empty, and the value of \<open>r\<close> otherwise. The newly extracted value of a field is
  what the back side extractor found for it on the combined back text, else what the
  front side extractor found for it on the combined front text; for the family sponsor
  name it is the name found in the back text. So a populated field never becomes empty.
\<close>

theorem C5_merge_per_field:
  "combine_texts (front_texts_of pfs) (back_texts_of pfs) = (fc, bc) \<longrightarrow>
     (\<exists>fd bd fsn l.
        parse_fields U fc = Inr fd
        \<and> parse_back_side_fields U bc = Inr bd
        \<and> find_family_sponsor_name U bd bc = Inr fsn
        \<and> upload_body U session (Some r) pfs = Inr l
        \<and> (\<forall>f \<in> set record_fields.
              rec_getattr (l_record l) f
                = (let new = (if f = ''family_sponsor_name'' then fsn
                              else (map_of fd ++ map_of bd) f)
                   in if truthy new then new else rec_getattr r f))
        \<and> (\<forall>f \<in> set record_fields.
              truthy (rec_getattr r f) \<longrightarrow> truthy (rec_getattr (l_record l) f)))"
proof
  assume comb: "combine_texts (front_texts_of pfs) (back_texts_of pfs) = (fc, bc)"
  obtain fd where fd: "parse_fields U fc = Inr fd" using parse_fields_ok by blast
  obtain bd where bd: "parse_back_side_fields U bc = Inr bd"
    using parse_back_side_fields_ok by blast
  obtain fsn where fsn: "find_family_sponsor_name U bd bc = Inr fsn"
    using find_family_sponsor_name_ok by blast
  from upload_body_unfold[OF comb fd bd fsn, of session "Some r"] obtain l where
    l: "upload_body U session (Some r) pfs = Inr l"
    and r': "l_record l = update_record r fd bd fsn"
    by auto
  have dist: "distinct (map fst fd)" using parse_fields_distinct[OF fd] .
  have distb: "distinct (map fst bd)"
    using parse_back_side_fields_grows[OF bd] by (simp add: grows_def)
  have nf: "map_of fd ''family_sponsor_name'' = None"
    using parse_fields_no_key[OF fd] by (simp add: front_keys_def)
  have nb: "map_of bd ''family_sponsor_name'' = None"
    using parse_back_side_fields_grows[OF bd] by (simp add: grows_def back_keys_def)
  have each: "\<forall>f \<in> set record_fields.
              rec_getattr (l_record l) f
                = (let new = (if f = ''family_sponsor_name'' then fsn
                              else (map_of fd ++ map_of bd) f)
                   in if truthy new then new else rec_getattr r f)"
    unfolding r' using update_record_getattr[OF dist distb _ nf nb] by blast
  then have keep: "\<forall>f \<in> set record_fields.
      truthy (rec_getattr r f) \<longrightarrow> truthy (rec_getattr (l_record l) f)"
    by (auto simp: Let_def)
  from fd bd fsn l each keep
  show "\<exists>fd bd fsn l.
        parse_fields U fc = Inr fd
        \<and> parse_back_side_fields U bc = Inr bd
        \<and> find_family_sponsor_name U bd bc = Inr fsn
        \<and> upload_body U session (Some r) pfs = Inr l
        \<and> (\<forall>f \<in> set record_fields.
              rec_getattr (l_record l) f
                = (let new = (if f = ''family_sponsor_name'' then fsn
                              else (map_of fd ++ map_of bd) f)
                   in if truthy new then new else rec_getattr r f))
        \<and> (\<forall>f \<in> set record_fields.
              truthy (rec_getattr r f) \<longrightarrow> truthy (rec_getattr (l_record l) f))"
    by blast
qed

section \<open>Blank texts\<close>

lemma takeWhile_blank:
  "\<forall>c \<in> set s. c = 32 \<Longrightarrow> \<not> P 32 \<Longrightarrow> takeWhile P (drop pos s) = []"
proof -
  assume a: "\<forall>c \<in> set s. c = 32" "\<not> P 32"
  then have "\<forall>c \<in> set (drop pos s). \<not> P c" using set_drop_subset[of pos s] by auto
  then show ?thesis by (cases "drop pos s") auto
qed

lemma rep_counts_none: "0 < lo \<Longrightarrow> rep_counts 0 lo hi greedy = []"
  by (auto simp: rep_counts_def split: option.splits)

lemma rx_match_blank:
  "\<forall>c \<in> set s. c = 32 \<Longrightarrow> list_ex (rejects_space U ic) k \<Longrightarrow> rx_match U ic s k pos cap = None"
proof (induction U ic s k pos cap rule: rx_match.induct)
  case (1 U ic s pos cap)
  then show ?case by simp
next
  case (3 U ic s p k pos cap)
  show ?case
  proof (cases "pos < length s \<and> chr_ok U ic p (s ! pos)")
    case True
    with "3.prems" have "s ! pos = 32" by simp
    with True "3.prems" have "list_ex (rejects_space U ic) k" by auto
    with True "3.IH" "3.prems" show ?thesis by simp
  next
    case False
    then show ?thesis by auto
  qed
next
  case (4 U ic s c k pos cap)
  show ?case
  proof (cases "pos < length s \<and> cclass_ok U ic c (s ! pos)")
    case True
    with "4.prems" have "s ! pos = 32" by simp
    with True "4.prems" have "list_ex (rejects_space U ic) k" by auto
    with True "4.IH" "4.prems" show ?thesis by simp
  next
    case False
    then show ?thesis by auto
  qed
next
  case (5 U ic s c lo hi greedy k pos cap)
  show ?case
  proof (cases "rejects_space U ic (Rep c lo hi greedy)")
    case True
    then have "takeWhile (cclass_ok U ic c) (drop pos s) = []"
      using takeWhile_blank[of s "cclass_ok U ic c" pos] "5.prems"(1) by simp
    with True show ?thesis by (simp add: rep_counts_none)
  next
    case False
    with "5.prems"(2) have k: "list_ex (rejects_space U ic) k" by auto
    have "\<forall>n \<in> set (rep_counts (length (takeWhile (cclass_ok U ic c) (drop pos s))) lo hi greedy).
        rx_match U ic s k (pos + n) cap = None"
      using "5.IH" "5.prems"(1) k by blast
    then show ?thesis by (simp add: first_some_None)
  qed
next
  case (7 U ic s a b k pos cap)
  then show ?case by (auto split: option.splits)
next
  case (12 U ic s a k pos cap)
  then show ?case by (auto split: option.splits)
qed auto

lemma search_blank:
  assumes "\<forall>c \<in> set s. c = 32" "rejects_space U ic r"
  shows "search_from U ic r s pos = None"
proof -
  have "match_at U ic r s st = None" for st
    using rx_match_blank[OF assms(1), of U ic "[r]" st None] assms(2)
    by (simp add: match_at_def)
  then show ?thesis by (simp add: search_from_def first_some_None)
qed

lemma re_search_blank:
  "\<forall>c \<in> set s. c = 32 \<Longrightarrow> rejects_space U ic r \<Longrightarrow> re_search U ic r s = None"
  by (simp add: re_search_def search_blank)

lemma finditer_blank:
  "\<forall>c \<in> set s. c = 32 \<Longrightarrow> rejects_space U ic r \<Longrightarrow> re_finditer U ic r s pos = []"
  by (subst re_finditer.simps) (simp add: search_blank)

lemma rejects_id: "blank_tables U \<Longrightarrow> rejects_space U False id_re"
  by (simp add: blank_tables_def id_re_def seq_def digits_def)

lemma rejects_date: "blank_tables U \<Longrightarrow> rejects_space U ic date_pattern"
  by (simp add: blank_tables_def date_pattern_def seq_def digits_def)

lemma rejects_labelled_date: "blank_tables U \<Longrightarrow> rejects_space U ic (labelled_date_re lbl)"
  using rejects_date[of U ic] by (simp add: labelled_date_re_def seq_def)

lemma rejects_name: "blank_tables U \<Longrightarrow> rejects_space U True name_re"
  by (simp add: blank_tables_def name_re_def labelled_re_def seq_def chars_def lit_def chr_ok_def)

lemma rejects_nationality: "blank_tables U \<Longrightarrow> rejects_space U True nationality_re"
  by (simp add: blank_tables_def nationality_re_def labelled_re_def seq_def chars_def lit_def
      chr_ok_def)

lemma rejects_address: "blank_tables U \<Longrightarrow> rejects_space U True address_re"
  by (simp add: blank_tables_def address_re_def labelled_re_def seq_def chars_def lit_def
      chr_ok_def)

lemma rejects_gender:
  "blank_tables U \<Longrightarrow> r \<in> set gender_patterns \<Longrightarrow> rejects_space U True r"
  by (auto simp: blank_tables_def gender_patterns_def gender_labels_def seq_def chars_def
      lit_def chr_ok_def)

lemma splitlines_plain:
  "\<forall>c \<in> set s. \<not> is_linebreak c \<Longrightarrow>
     splitlines_from cur s = (if cur @ s = [] then [] else [cur @ s])"
  by (induction cur s rule: splitlines_from.induct) (auto simp: is_linebreak_def)

lemma strip_blank: "u_space U 32 \<Longrightarrow> \<forall>c \<in> set s. c = 32 \<Longrightarrow> py_strip U s = []"
proof -
  assume a: "u_space U 32" "\<forall>c \<in> set s. c = 32"
  then have "\<forall>x \<in> set s. u_space U x" by auto
  then have d: "dropWhile (u_space U) s = []" by (simp only: dropWhile_eq_Nil_conv)
  show ?thesis unfolding py_strip_def d by simp
qed

lemma stripped_lines_blank:
  assumes "blank_tables U" "\<forall>c \<in> set s. c = 32"
  shows "stripped_lines U (py_replace_char 13 10 s) = []"
proof -
  have rep: "py_replace_char 13 10 s = s"
    using assms(2) by (induction s) (auto simp: py_replace_char_def)
  have "\<forall>c \<in> set s. \<not> is_linebreak c" using assms(2) by (auto simp: is_linebreak_def)
  then have "py_splitlines s = (if s = [] then [] else [s])"
    by (simp add: py_splitlines_def splitlines_plain)
  moreover have "py_strip U s = []" using strip_blank assms by (simp add: blank_tables_def)
  ultimately show ?thesis by (simp add: rep stripped_lines_def)
qed

lemma find_date_blank:
  "blank_tables U \<Longrightarrow> \<forall>c \<in> set s. c = 32 \<Longrightarrow> find_date_by_labels U s labels = None"
  by (induction labels) (simp_all add: re_search_blank rejects_labelled_date)

lemma gender_scan_blank:
  "blank_tables U \<Longrightarrow> \<forall>c \<in> set s. c = 32 \<Longrightarrow> \<forall>r \<in> set ps. rejects_space U True r
     \<Longrightarrow> gender_scan U s ps = None"
  by (induction ps) (simp_all add: re_search_blank)

lemma parse_fields_blank:
  assumes U: "blank_tables U" and s: "\<forall>c \<in> set s. c = 32"
  shows "parse_fields U s = Inr []"
proof -
  have id: "parse_emirates_id U s [] = []"
    by (simp add: parse_emirates_id_def re_search_blank[OF s rejects_id[OF U]])
  have name: "parse_labelled_name U s [] = Inr []"
    by (simp add: parse_labelled_name_def re_search_blank[OF s rejects_name[OF U]])
  have fallback: "parse_fallback_name U (py_replace_char 13 10 s) [] = Inr []"
    by (simp add: parse_fallback_name_def dict_has_def stripped_lines_blank[OF U s])
  have dates: "parse_dates U s [] = Inr []"
    by (simp add: parse_dates_def Let_def re_findall_group_def
        finditer_blank[OF s rejects_date[OF U]] find_date_blank[OF U s] set_date_def
        dict_has_def truthy_def)
  have nat: "parse_nationality U s [] = Inr []"
    by (simp add: parse_nationality_def re_search_blank[OF s rejects_nationality[OF U]])
  have gender: "parse_gender U s [] = []"
    using gender_scan_blank[OF U s, of gender_patterns] rejects_gender[OF U]
    by (simp add: parse_gender_def set_gender_def)
  have addr: "parse_address U s (py_replace_char 13 10 s) [] = Inr []"
    by (simp add: parse_address_def re_search_blank[OF s rejects_address[OF U]] dict_has_def
        stripped_lines_blank[OF U s])
  show ?thesis
    by (simp add: parse_fields_def Let_def id name fallback dates nat gender addr)
qed

lemma blank_latin_arabic: "blank_tables latin_arabic"
  by (auto simp: blank_tables_def latin_arabic_def la_space_def la_decimal_def la_lower_cp_def
      la_upper_letter_def)

section \<open>Uploads without text\<close>

lemma strip_empty [simp]: "py_strip U [] = []"
  by (simp add: py_strip_def)

lemma combine_pages_empty:
  "list_all (\<lambda>p. py_strip U p = []) pages \<Longrightarrow> combine_pages U pages = []"
  by (induction pages) (auto simp: combine_pages_def)

lemma ocr_space_file_empty:
  "empty_answer U (f_reply f l) \<Longrightarrow> ocr_space_file U f l = ([], 0)"
  by (auto simp: empty_answer_def ocr_space_file_def split: api_reply.splits list.splits)

lemma pdf_all_pages_empty:
  assumes "ocr_empty U f"
  shows "ocr_space_pdf_all_pages U f = ([], 0)"
proof -
  from assms obtain j j' where e: "f_reply f Eng = Reply 200 j" "\<not> j_errored j"
      "j_parsed_results j \<noteq> []" "list_all (\<lambda>p. py_strip U p = []) (j_parsed_results j)"
    and a: "f_reply f Ara = Reply 200 j'" "\<not> j_errored j'"
      "j_parsed_results j' \<noteq> []" "list_all (\<lambda>p. py_strip U p = []) (j_parsed_results j')"
    by (auto simp: ocr_empty_def empty_answer_def split: api_reply.splits)
  then show ?thesis
    by (simp add: ocr_space_pdf_all_pages_def combine_pages_empty Let_def)
qed

lemma multi_lang_empty:
  assumes "ocr_empty U f"
  shows "ocr_space_file_multi_lang U f is_pdf = ([], 0)"
proof (cases is_pdf)
  case True
  then show ?thesis using pdf_all_pages_empty[OF assms] by (simp add: ocr_space_file_multi_lang_def)
next
  case False
  from assms have "ocr_space_file U f Eng = ([], 0)" "ocr_space_file U f Ara = ([], 0)"
    by (simp_all add: ocr_empty_def ocr_space_file_empty)
  with False show ?thesis by (simp add: ocr_space_file_multi_lang_def)
qed

lemma detect_empty: "u_lower U [] = [] \<Longrightarrow> detect_document_side U [] = Unknown"
  by (simp add: detect_document_side_def indicator_score_def back_indicators_def
      front_indicators_def lit_def)

lemma process_files_empty:
  assumes "u_lower U [] = []" "list_all (ocr_empty U) files"
  shows "\<exists>pfs. process_files U files = Inr pfs \<and> length pfs = length files
     \<and> (\<forall>p \<in> set pfs. pf_text p = [] \<and> pf_side p = Unknown)"
  using assms(2)
proof (induction files)
  case Nil
  then show ?case by simp
next
  case (Cons f files)
  then obtain pfs where pfs: "process_files U files = Inr pfs" "length pfs = length files"
      "\<forall>p \<in> set pfs. pf_text p = [] \<and> pf_side p = Unknown"
    by auto
  from Cons.prems have "ocr_empty U f" by simp
  then have "ocr_space_file_multi_lang U f is_pdf = ([], 0)" for is_pdf
    by (rule multi_lang_empty)
  with pfs show ?case by (simp add: Let_def detect_empty[OF assms(1)])
qed

lemma join_blank:
  "\<forall>x \<in> set xs. x = [] \<Longrightarrow> \<forall>c \<in> set (py_join [32] xs). c = 32"
  by (induction "[32::nat]" xs rule: py_join.induct) auto

lemma combine_empty:
  assumes "\<forall>p \<in> set pfs. pf_text p = [] \<and> pf_side p = Unknown"
  shows "\<exists>fc. combine_texts (front_texts_of pfs) (back_texts_of pfs) = (fc, [])
     \<and> (\<forall>c \<in> set fc. c = 32)"
proof -
  have b: "back_texts_of pfs = []" using assms by (auto simp: back_texts_of_def filter_empty_conv)
  have f: "\<forall>x \<in> set (front_texts_of pfs). x = []" using assms by (auto simp: front_texts_of_def)
  have sp: "lit '' '' = [32]" by (simp add: lit_def)
  let ?F = "if front_texts_of pfs \<noteq> [] then py_join (lit '' '') (front_texts_of pfs) else []"
  have "\<forall>c \<in> set ?F. c = 32" using join_blank[OF f] by (simp add: sp)
  moreover have "combine_texts (front_texts_of pfs) (back_texts_of pfs) = (?F, [])"
    by (simp add: combine_texts_eq b Let_def)
  ultimately show ?thesis by blast
qed

lemma update_record_empty: "update_record r [] [] None = r"
  by (simp add: update_record_def dict_merge_def truthy_def)

lemma missing_created:
  "missing_fields (create_record [] [] None)
     = [''emirates_id'', ''name'', ''dob'', ''nationality'', ''gender'', ''address'',
        ''issuing_date'', ''expiry_date'', ''occupation'', ''employer'', ''issuing_place'']"
  by (simp add: missing_fields_def create_record_def dict_get_def expected_front_def
      expected_back_def rec_getattr_def truthy_def)

lemma upload_body_empty:
  assumes U: "blank_tables U" and e: "list_all (ocr_empty U) files"
  shows "\<exists>pfs l.
      process_files U files = Inr pfs
      \<and> upload_body U session existing pfs = Inr l
      \<and> l_record l = (case existing of None \<Rightarrow> create_record [] [] None | Some r \<Rightarrow> r)
      \<and> l_missing l = missing_fields (l_record l)
      \<and> s_salary (l_session l) = s_salary session"
proof -
  from U have low: "u_lower U [] = []" by (simp add: blank_tables_def)
  from process_files_empty[OF low e] obtain pfs where pfs: "process_files U files = Inr pfs"
    and blank: "\<forall>p \<in> set pfs. pf_text p = [] \<and> pf_side p = Unknown" by blast
  from combine_empty[OF blank] obtain fc where
    comb: "combine_texts (front_texts_of pfs) (back_texts_of pfs) = (fc, [])"
    and fc: "\<forall>c \<in> set fc. c = 32" by blast
  have fd: "parse_fields U fc = Inr []" using parse_fields_blank[OF U fc] .
  have bd: "parse_back_side_fields U [] = Inr []" by (rule parse_back_side_fields_empty)
  have fsn: "find_family_sponsor_name U [] [] = Inr None"
    by (simp add: find_family_sponsor_name_def dict_get_def)
  from upload_body_unfold[OF comb fd bd fsn, of session existing] pfs show ?thesis
    by (auto simp: update_record_empty split: option.splits)
qed

lemma ocr_empty_image: "ocr_empty U empty_image"
  by (simp add: ocr_empty_def empty_answer_def empty_image_def)

lemma process_empty_image:
  "process_files latin_arabic [empty_image] = Inr [blank_page]"
  by (simp add: Let_def ocr_space_file_multi_lang_def ocr_space_file_def empty_image_def
      blank_page_def endswith_def lit_def latin_arabic_def la_lower_cp_def la_upper_letter_def
      detect_empty)

lemma salary_example:
  "normalize_salary latin_arabic (u_lower latin_arabic (lit ''4000 - 5000 AED''))
     = Inr (Some ''4000_5000'')"
  by (simp add: normalize_salary_def salary_by_rules_def latin_arabic_def lit_def
      la_lower_cp_def la_upper_letter_def)

lemma place_example: "normalize_place latin_arabic (lit ''Dubai'') = Some (lit ''Dubai'')"
  by (simp add: normalize_place_def latin_arabic_def lit_def la_lower_cp_def la_upper_letter_def
      py_strip_def la_space_def)

section \<open>The missing fields of an upload without text\<close>

text \<open>
  Claim C4, as the code has it. For a batch in which every OCR call succeeds with no
  text, for a session with no record, the list of missing fields that the handler
  computes is the eight front fields emirates\_id, name, dob, nationality, gender,
  address, issuing\_date and expiry\_date and the three back fields occupation, employer
  and issuing\_place, and nothing else: family\_sponsor is not among the expected fields
  of the handler.
\<close>

theorem C4_missing_fields_computed:
  "blank_tables U \<and> list_all (ocr_empty U) files \<longrightarrow>
     (\<exists>pfs. process_files U files = Inr pfs
        \<and> map_sum id l_missing (upload_body U session None pfs)
            = Inr [''emirates_id'', ''name'', ''dob'', ''nationality'', ''gender'', ''address'',
                   ''issuing_date'', ''expiry_date'', ''occupation'', ''employer'',
                   ''issuing_place''])"
proof
  assume a: "blank_tables U \<and> list_all (ocr_empty U) files"
  then obtain pfs l where "process_files U files = Inr pfs"
    "upload_body U session None pfs = Inr l"
    "l_record l = create_record [] [] None" "l_missing l = missing_fields (l_record l)"
    using upload_body_empty[of U files session None] by auto
  then show "\<exists>pfs. process_files U files = Inr pfs
        \<and> map_sum id l_missing (upload_body U session None pfs)
            = Inr [''emirates_id'', ''name'', ''dob'', ''nationality'', ''gender'', ''address'',
                   ''issuing_date'', ''expiry_date'', ''occupation'', ''employer'',
                   ''issuing_place'']"
    by (auto simp: missing_created)
qed

theorem C4_missing_fields_computed_witness:
  "blank_tables latin_arabic
   \<and> list_all (ocr_empty latin_arabic) [empty_image, empty_image]
   \<and> process_files latin_arabic [empty_image, empty_image] = Inr [blank_page, blank_page]
   \<and> map_sum id l_missing (upload_body latin_arabic dubai_session None [blank_page, blank_page])
       = Inr [''emirates_id'', ''name'', ''dob'', ''nationality'', ''gender'', ''address'',
              ''issuing_date'', ''expiry_date'', ''occupation'', ''employer'', ''issuing_place'']"
proof -
  have h: "blank_tables latin_arabic \<and> list_all (ocr_empty latin_arabic) [empty_image, empty_image]"
    by (simp add: blank_latin_arabic ocr_empty_image)
  have p: "process_files latin_arabic [empty_image, empty_image] = Inr [blank_page, blank_page]"
    by (simp add: Let_def ocr_space_file_multi_lang_def ocr_space_file_def empty_image_def
        blank_page_def endswith_def lit_def latin_arabic_def la_lower_cp_def la_upper_letter_def
        detect_empty)
  from C4_missing_fields_computed [of latin_arabic "[empty_image, empty_image]" dubai_session] h
  obtain pfs where "process_files latin_arabic [empty_image, empty_image] = Inr pfs"
    "map_sum id l_missing (upload_body latin_arabic dubai_session None pfs)
       = Inr [''emirates_id'', ''name'', ''dob'', ''nationality'', ''gender'', ''address'',
              ''issuing_date'', ''expiry_date'', ''occupation'', ''employer'', ''issuing_place'']"
    by blast
  from this(2) this(1)[unfolded p] have "map_sum id l_missing
        (upload_body latin_arabic dubai_session None [blank_page, blank_page])
       = Inr [''emirates_id'', ''name'', ''dob'', ''nationality'', ''gender'', ''address'',
              ''issuing_date'', ''expiry_date'', ''occupation'', ''employer'', ''issuing_place'']"
    by simp
  with h p show ?thesis by blast
qed

text \<open>
  The claim as stated, with family\_sponsor among the missing fields, fails for the
  upload of one image without text: the handler reads no text, computes the list of the
  eleven fields, and family\_sponsor is not in it.
\<close>

theorem C4_family_sponsor_not_expected_counterexample:
  "ocr_empty latin_arabic empty_image
   \<and> process_files latin_arabic [empty_image] = Inr [blank_page]
   \<and> map_sum id l_missing (upload_body latin_arabic dubai_session None [blank_page])
       = Inr [''emirates_id'', ''name'', ''dob'', ''nationality'', ''gender'', ''address'',
              ''issuing_date'', ''expiry_date'', ''occupation'', ''employer'', ''issuing_place'']
   \<and> map_sum id (\<lambda>l. ''family_sponsor'' \<in> set (l_missing l))
         (upload_body latin_arabic dubai_session None [blank_page]) = Inr False"
proof -
  obtain pfs l where pf: "process_files latin_arabic [empty_image] = Inr pfs"
    and b: "upload_body latin_arabic dubai_session None pfs = Inr l"
    and r: "l_record l = create_record [] [] None"
    and m: "l_missing l = missing_fields (l_record l)"
    using upload_body_empty[of latin_arabic "[empty_image]" dubai_session None]
      blank_latin_arabic ocr_empty_image by auto
  from pf[unfolded process_empty_image] have "pfs = [blank_page]" by simp
  with b have "upload_body latin_arabic dubai_session None [blank_page] = Inr l" by simp
  moreover from m r have
    "l_missing l = [''emirates_id'', ''name'', ''dob'', ''nationality'', ''gender'',
        ''address'', ''issuing_date'', ''expiry_date'', ''occupation'', ''employer'',
        ''issuing_place'']"
    by (simp add: missing_created)
  ultimately have
    "map_sum id l_missing (upload_body latin_arabic dubai_session None [blank_page])
       = Inr [''emirates_id'', ''name'', ''dob'', ''nationality'', ''gender'', ''address'',
              ''issuing_date'', ''expiry_date'', ''occupation'', ''employer'', ''issuing_place'']"
    "map_sum id (\<lambda>l. ''family_sponsor'' \<in> set (l_missing l))
         (upload_body latin_arabic dubai_session None [blank_page]) = Inr False"
    by simp_all
  with ocr_empty_image[of latin_arabic] process_empty_image show ?thesis by blast
qed

section \<open>The two tables for Dubai\<close>

text \<open>
  Claim C2. For Dubai and the band 4000\_5000 or above\_5000 the table of the helper
  returns the NLSB plan at 864.00 and the LSB plan at 1893.00 and no message, and so
  does the helper for a record issued in Dubai and the salary answer "4000 - 5000 AED".
  The table written out in the upload handler holds the LSB plan twice for these
  bands. For that record, that session and an image without text the handler comes to
  the products LSB and LSB and then raises \<open>AttributeError\<close>.
\<close>

theorem C2_upload_table_repeats_lsb:
  "build_products (Some (lit ''Dubai'')) (Some ''4000_5000'') = ([dha_nlsb, dha_lsb], None)
   \<and> build_products (Some (lit ''Dubai'')) (Some ''above_5000'') = ([dha_nlsb, dha_lsb], None)
   \<and> compute_products_based_on_data latin_arabic (Some dubai_session) (Some dubai_record)
       = Inr ([dha_nlsb, dha_lsb], None)
   \<and> upload_products (Some (lit ''Dubai'')) (Some ''4000_5000'')
       = ([product3 ''DHA-Basic'' ''1893.00'' ''LSB'',
           product3 ''DHA-Basic'' ''1893.00'' ''LSB''], None)
   \<and> upload_products (Some (lit ''Dubai'')) (Some ''above_5000'')
       = ([product3 ''DHA-Basic'' ''1893.00'' ''LSB'',
           product3 ''DHA-Basic'' ''1893.00'' ''LSB''], None)
   \<and> process_files latin_arabic [empty_image] = Inr [blank_page]
   \<and> and_then (upload_body latin_arabic dubai_session (Some dubai_record) [blank_page])
         (upload_recommend latin_arabic)
       = Inr (Some (lit ''Dubai''),
              [product3 ''DHA-Basic'' ''1893.00'' ''LSB'',
               product3 ''DHA-Basic'' ''1893.00'' ''LSB''], None)
   \<and> emirates_id_upload latin_arabic dubai_session (Some dubai_record) [empty_image]
       = Inl AttributeError"
proof (intro conjI)
  have sal: "u_lower latin_arabic (or_empty (s_salary dubai_session))
      = u_lower latin_arabic (lit ''4000 - 5000 AED'')"
    by (simp add: dubai_session_def or_empty_def)
  have place: "or_empty (r_issuing_place dubai_record) = lit ''Dubai''"
    by (simp add: dubai_record_def or_empty_def)
  show "build_products (Some (lit ''Dubai'')) (Some ''4000_5000'') = ([dha_nlsb, dha_lsb], None)"
    by (simp add: build_products_def)
  show "build_products (Some (lit ''Dubai'')) (Some ''above_5000'') = ([dha_nlsb, dha_lsb], None)"
    by (simp add: build_products_def)
  show "compute_products_based_on_data latin_arabic (Some dubai_session) (Some dubai_record)
     = Inr ([dha_nlsb, dha_lsb], None)"
    by (simp add: compute_products_based_on_data_def Let_def sal place salary_example
        place_example build_products_def)
  show "upload_products (Some (lit ''Dubai'')) (Some ''4000_5000'')
       = ([product3 ''DHA-Basic'' ''1893.00'' ''LSB'',
           product3 ''DHA-Basic'' ''1893.00'' ''LSB''], None)"
    by (simp add: upload_products_def)
  show "upload_products (Some (lit ''Dubai'')) (Some ''above_5000'')
       = ([product3 ''DHA-Basic'' ''1893.00'' ''LSB'',
           product3 ''DHA-Basic'' ''1893.00'' ''LSB''], None)"
    by (simp add: upload_products_def)
  show p: "process_files latin_arabic [empty_image] = Inr [blank_page]"
    by (rule process_empty_image)
  obtain pfs l where pf: "process_files latin_arabic [empty_image] = Inr pfs"
    and b: "upload_body latin_arabic dubai_session (Some dubai_record) pfs = Inr l"
    and r: "l_record l = dubai_record"
    and s: "s_salary (l_session l) = s_salary dubai_session"
    using upload_body_empty[of latin_arabic "[empty_image]" dubai_session "Some dubai_record"]
      blank_latin_arabic ocr_empty_image by auto
  from pf[unfolded process_empty_image] have "pfs = [blank_page]" by simp
  with b have l: "upload_body latin_arabic dubai_session (Some dubai_record) [blank_page] = Inr l"
    by simp
  have "normalize_salary latin_arabic (u_lower latin_arabic (or_empty (s_salary (l_session l))))
      = Inr (Some ''4000_5000'')"
    by (simp add: s sal salary_example)
  from upload_recommend_unfold[OF this]
  show "and_then (upload_body latin_arabic dubai_session (Some dubai_record) [blank_page])
         (upload_recommend latin_arabic)
       = Inr (Some (lit ''Dubai''),
              [product3 ''DHA-Basic'' ''1893.00'' ''LSB'',
               product3 ''DHA-Basic'' ''1893.00'' ''LSB''], None)"
    by (simp add: l r place place_example upload_products_def)
  show "emirates_id_upload latin_arabic dubai_session (Some dubai_record) [empty_image]
       = Inl AttributeError"
    by (rule upload_raises[OF _ p]) simp
qed

section \<open>An upload that reads a name\<close>

text \<open>
  The steps of \<open>parse_fields\<close> on the text "Name: Bo", one search at a time: the labelled
  name is "Bo", and the last scan for an address takes the whole line.
\<close>

lemmas la_defs = latin_arabic_def la_lower_cp_def la_upper_cp_def la_upper_letter_def
  la_lower_letter_def la_space_def la_decimal_def la_alnum_def

lemmas rx_defs = re_search_def search_from_def match_at_def seq_def chars_def lit_def
  spaces_def opt_sep_def digits_def rep_counts_def chr_ok_def word_boundary_def is_word_def
  at_end_def group0_def group1_def slice_def group1_strip_def py_strip_def
  labelled_re_def labelled_date_re_def date_pattern_def

lemma name_bo: "lit ''Name: Bo'' = [78, 97, 109, 101, 58, 32, 66, 111]"
  by (simp add: lit_def)

lemma bo_id: "parse_emirates_id latin_arabic [78, 97, 109, 101, 58, 32, 66, 111] [] = []"
  by (simp add: parse_emirates_id_def id_re_def rx_defs la_defs)

lemma bo_name:
  "parse_labelled_name latin_arabic [78, 97, 109, 101, 58, 32, 66, 111] []
     = Inr [(''name'', [66, 111])]"
  by (simp add: parse_labelled_name_def name_re_def trailing_punct_re_def re_sub_empty_def
      re_finditer.simps rx_defs la_defs)

lemma bo_fallback:
  "parse_fallback_name latin_arabic s [(''name'', [66, 111])] = Inr [(''name'', [66, 111])]"
  by (simp add: parse_fallback_name_def dict_has_def)

lemma bo_find_date:
  "find_date_by_labels latin_arabic [78, 97, 109, 101, 58, 32, 66, 111] dob_labels = None"
  "find_date_by_labels latin_arabic [78, 97, 109, 101, 58, 32, 66, 111] issuing_labels = None"
  "find_date_by_labels latin_arabic [78, 97, 109, 101, 58, 32, 66, 111] expiry_labels = None"
  by (simp_all add: dob_labels_def issuing_labels_def expiry_labels_def rx_defs la_defs)

lemma bo_all_dates:
  "re_findall_group latin_arabic False date_pattern [78, 97, 109, 101, 58, 32, 66, 111] = []"
  by (simp add: re_findall_group_def re_finditer.simps rx_defs la_defs)

lemma bo_dates:
  "parse_dates latin_arabic [78, 97, 109, 101, 58, 32, 66, 111] [(''name'', [66, 111])]
     = Inr [(''name'', [66, 111])]"
  by (simp add: parse_dates_def Let_def bo_find_date bo_all_dates set_date_def dict_has_def
      truthy_def)

lemma bo_nationality:
  "parse_nationality latin_arabic [78, 97, 109, 101, 58, 32, 66, 111] [(''name'', [66, 111])]
     = Inr [(''name'', [66, 111])]"
  by (simp add: parse_nationality_def nationality_re_def rx_defs la_defs)

lemma bo_gender:
  "parse_gender latin_arabic [78, 97, 109, 101, 58, 32, 66, 111] [(''name'', [66, 111])]
     = [(''name'', [66, 111])]"
  by (simp add: parse_gender_def gender_patterns_def gender_labels_def set_gender_def
      rx_defs la_defs)

lemma bo_lines:
  "stripped_lines latin_arabic (py_replace_char 13 10 [78, 97, 109, 101, 58, 32, 66, 111])
     = [[78, 97, 109, 101, 58, 32, 66, 111]]"
  by (simp add: stripped_lines_def py_replace_char_def py_splitlines_def is_linebreak_def
      py_strip_def la_defs)

lemma bo_address_scan:
  "address_scan latin_arabic [[78, 97, 109, 101, 58, 32, 66, 111]]
     = Some [78, 97, 109, 101, 58, 32, 66, 111]"
  by (simp add: has_stopword_def stopwords_def lit_def any_digit_def py_split_def la_defs)

lemma bo_address:
  "parse_address latin_arabic [78, 97, 109, 101, 58, 32, 66, 111]
      (py_replace_char 13 10 [78, 97, 109, 101, 58, 32, 66, 111]) [(''name'', [66, 111])]
     = Inr [(''name'', [66, 111]), (''address'', [78, 97, 109, 101, 58, 32, 66, 111])]"
proof -
  have "re_search latin_arabic True address_re [78, 97, 109, 101, 58, 32, 66, 111] = None"
    by (simp add: address_re_def rx_defs la_defs)
  then show ?thesis
    by (simp add: parse_address_def dict_has_def bo_lines bo_address_scan
        del: address_scan.simps)
qed

lemma bo_clean:
  "clean_value latin_arabic [66, 111] = [66, 111]"
  "clean_value latin_arabic [78, 97, 109, 101, 58, 32, 66, 111]
     = [78, 97, 109, 101, 58, 32, 66, 111]"
  by (simp_all add: clean_value_def py_strip_def py_rstrip_chars_def la_defs)

lemma parse_fields_name_bo:
  "parse_fields latin_arabic (lit ''Name: Bo'')
     = Inr [(''name'', lit ''Bo''), (''address'', lit ''Name: Bo'')]"
proof -
  have bo: "lit ''Bo'' = [66, 111]" by (simp add: lit_def)
  show ?thesis
    unfolding name_bo bo
    by (simp add: parse_fields_def Let_def bo_id bo_name bo_fallback bo_dates bo_nationality
        bo_gender bo_address bo_clean del: py_replace_char_def)
qed

lemma detect_name_bo: "detect_document_side latin_arabic (lit ''Name: Bo'') = Front"
  by (simp add: detect_document_side_def indicator_score_def back_indicators_def
      front_indicators_def lit_def la_defs)

lemma process_name_image: "process_files latin_arabic [name_image] = Inr [name_page]"
proof -
  have s: "py_strip latin_arabic (lit ''Name: Bo'') = lit ''Name: Bo''"
    by (simp add: py_strip_def lit_def la_defs)
  have "ocr_space_file latin_arabic name_image l = (lit ''Name: Bo'', 0)" for l
    by (simp add: ocr_space_file_def name_image_def s)
  moreover have "\<not> endswith (u_lower latin_arabic (f_name name_image)) (lit ''.pdf'')"
    by (simp add: name_image_def endswith_def lit_def la_defs)
  moreover have "f_name name_image = lit ''front.jpg''" by (simp add: name_image_def)
  ultimately show ?thesis
    by (simp add: Let_def ocr_space_file_multi_lang_def detect_name_bo name_page_def)
qed

lemma combine_name_page:
  "combine_texts (front_texts_of [name_page]) (back_texts_of [name_page])
     = (lit ''Name: Bo'', [])"
  by (simp add: combine_texts_def front_texts_of_def back_texts_of_def name_page_def lit_def)

theorem C5_merge_per_field_witness:
  "process_files latin_arabic [name_image] = Inr [name_page]
   \<and> combine_texts (front_texts_of [name_page]) (back_texts_of [name_page])
       = (lit ''Name: Bo'', [])
   \<and> parse_fields latin_arabic (lit ''Name: Bo'')
       = Inr [(''name'', lit ''Bo''), (''address'', lit ''Name: Bo'')]
   \<and> parse_back_side_fields latin_arabic [] = Inr []
   \<and> rec_getattr dubai_record ''name'' = Some (lit ''Sara Ali'')
   \<and> rec_getattr dubai_record ''issuing_place'' = Some (lit ''Dubai'')
   \<and> map_sum id (\<lambda>l. rec_getattr (l_record l) ''name'')
         (upload_body latin_arabic dubai_session (Some dubai_record) [name_page])
       = Inr (Some (lit ''Bo''))
   \<and> map_sum id (\<lambda>l. rec_getattr (l_record l) ''issuing_place'')
         (upload_body latin_arabic dubai_session (Some dubai_record) [name_page])
       = Inr (Some (lit ''Dubai''))"
proof -
  have n: "rec_getattr dubai_record ''name'' = Some (lit ''Sara Ali'')"
    by (simp add: rec_getattr_def dubai_record_def)
  have i: "rec_getattr dubai_record ''issuing_place'' = Some (lit ''Dubai'')"
    by (simp add: rec_getattr_def dubai_record_def)
  from C5_merge_per_field [where pfs = "[name_page]" and fc = "lit ''Name: Bo''" and bc = "[]"
      and U = latin_arabic and session = dubai_session and r = dubai_record]
    combine_name_page
  obtain fd bd fsn l where
    fd: "parse_fields latin_arabic (lit ''Name: Bo'') = Inr fd"
    and bd: "parse_back_side_fields latin_arabic [] = Inr bd"
    and l: "upload_body latin_arabic dubai_session (Some dubai_record) [name_page] = Inr l"
    and each: "\<forall>f \<in> set record_fields.
              rec_getattr (l_record l) f
                = (let new = (if f = ''family_sponsor_name'' then fsn
                              else (map_of fd ++ map_of bd) f)
                   in if truthy new then new else rec_getattr dubai_record f)"
    by blast
  from fd[unfolded parse_fields_name_bo]
  have fd': "fd = [(''name'', lit ''Bo''), (''address'', lit ''Name: Bo'')]" by simp
  from bd[unfolded parse_fields_empty parse_back_side_fields_empty] have bd': "bd = []" by simp
  have "''name'' \<in> set record_fields" "''issuing_place'' \<in> set record_fields"
    by (simp_all add: record_fields_def)
  with each have
    "rec_getattr (l_record l) ''name''
       = (let new = (map_of fd ++ map_of bd) ''name''
          in if truthy new then new else rec_getattr dubai_record ''name'')"
    "rec_getattr (l_record l) ''issuing_place''
       = (let new = (map_of fd ++ map_of bd) ''issuing_place''
          in if truthy new then new else rec_getattr dubai_record ''issuing_place'')"
    by auto
  then have "rec_getattr (l_record l) ''name'' = Some (lit ''Bo'')"
    "rec_getattr (l_record l) ''issuing_place'' = Some (lit ''Dubai'')"
    by (simp_all add: fd' bd' truthy_def lit_def i)
  with l have
    "map_sum id (\<lambda>l. rec_getattr (l_record l) ''name'')
         (upload_body latin_arabic dubai_session (Some dubai_record) [name_page])
       = Inr (Some (lit ''Bo''))"
    "map_sum id (\<lambda>l. rec_getattr (l_record l) ''issuing_place'')
         (upload_body latin_arabic dubai_session (Some dubai_record) [name_page])
       = Inr (Some (lit ''Dubai''))"
    by simp_all
  with process_name_image combine_name_page parse_fields_name_bo
    parse_back_side_fields_empty[of latin_arabic] n i
  show ?thesis by blast
qed

end
